theory Spec2Isabelle
  imports Main
begin

section \<open>Python values, errors and results\<close>

text \<open>
  The extractor \<^verbatim>\<open>MicrosoftStreamIE\<close> of
  \<^verbatim>\<open>yt_dlp/extractor/microsoftstream.py\<close> works on decoded JSON and builds
  Python dictionaries. A JSON value is a \<open>pyval\<close>; a dictionary is an
  association list in insertion order whose keys are looked up with Python's key
  equality. (Floats do not occur in anything the extractor inspects and are left out.)
\<close>

datatype pyval =
    PNone
  | PBool bool
  | PInt int
  | PStr string
  | PList "pyval list"
  | PDict "(pyval \<times> pyval) list"

type_synonym 'v pydict = "(pyval \<times> 'v) list"

text \<open>Every \<^verbatim>\<open>raise\<close> the extractor can run into is a value of \<open>error\<close>.\<close>

datatype error =
    UnsupportedUrl
  | ExtractorError string
  | LoginRequired string
  | KeyError string
  | TypeError
  | AttributeError
  | ValueError
  | BinasciiError

text \<open>The requests an extraction sends, in the order it sends them.\<close>

datatype call =
    FetchWebpage string
  | FetchJson string bool "(string \<times> string) list" "(string \<times> string) list"
  | ResolveHls pyval
  | ResolveDash pyval
  | ResolveMss pyval

type_synonym 'a res = "(error + 'a) \<times> call list"

definition ebind :: "error + 'a \<Rightarrow> ('a \<Rightarrow> error + 'b) \<Rightarrow> error + 'b" where
  "ebind m f = (case m of Inl e \<Rightarrow> Inl e | Inr x \<Rightarrow> f x)"

definition ret :: "'a \<Rightarrow> 'a res" where
  "ret x = (Inr x, [])"

definition lift :: "error + 'a \<Rightarrow> 'a res" where
  "lift m = (m, [])"

definition bind :: "'a res \<Rightarrow> ('a \<Rightarrow> 'b res) \<Rightarrow> 'b res" where
  "bind m f =
     (case fst m of
        Inl e \<Rightarrow> (Inl e, snd m)
      | Inr x \<Rightarrow> (fst (f x), snd m @ snd (f x)))"

text \<open>Truthiness, and \<^verbatim>\<open>a or b\<close>.\<close>

fun truthy :: "pyval \<Rightarrow> bool" where
  "truthy PNone = False"
| "truthy (PBool b) = b"
| "truthy (PInt i) = (i \<noteq> 0)"
| "truthy (PStr s) = (s \<noteq> [])"
| "truthy (PList xs) = (xs \<noteq> [])"
| "truthy (PDict d) = (d \<noteq> [])"

definition py_or :: "pyval \<Rightarrow> pyval \<Rightarrow> pyval" where
  "py_or a b = (if truthy a then a else b)"

text \<open>
  Dictionary keys: lists and dictionaries are unhashable; \<^verbatim>\<open>True == 1\<close> and
  \<^verbatim>\<open>False == 0\<close> are the same key.
\<close>

fun hashable :: "pyval \<Rightarrow> bool" where
  "hashable (PList xs) = False"
| "hashable (PDict d) = False"
| "hashable v = True"

fun key_eq :: "pyval \<Rightarrow> pyval \<Rightarrow> bool" where
  "key_eq (PBool a) (PInt b) = ((if a then 1 else 0) = b)"
| "key_eq (PInt a) (PBool b) = (a = (if b then 1 else 0))"
| "key_eq a b = (a = b)"

fun dict_get :: "'v pydict \<Rightarrow> pyval \<Rightarrow> 'v option" where
  "dict_get [] k = None"
| "dict_get ((k', v) # d) k = (if key_eq k' k then Some v else dict_get d k)"

text \<open>\<^verbatim>\<open>d[k] = v\<close>: an existing key keeps its place, a new one goes last.\<close>

fun dict_set :: "'v pydict \<Rightarrow> pyval \<Rightarrow> 'v \<Rightarrow> 'v pydict" where
  "dict_set [] k v = [(k, v)]"
| "dict_set ((k', w) # d) k v =
     (if key_eq k' k then (k', v) # d else (k', w) # dict_set d k v)"

text \<open>\<^verbatim>\<open>d.update(r)\<close>.\<close>

fun dict_update :: "'v pydict \<Rightarrow> 'v pydict \<Rightarrow> 'v pydict" where
  "dict_update d [] = d"
| "dict_update d ((k, v) # r) = dict_update (dict_set d k v) r"

text \<open>
  \<^verbatim>\<open>x.get(k)\<close> with a string key: only a dictionary has the method;
  \<^verbatim>\<open>x[k]\<close> with a string key: a missing key is a KeyError, any other value
  cannot be subscripted by a string.
\<close>

fun py_get :: "pyval \<Rightarrow> string \<Rightarrow> error + pyval" where
  "py_get (PDict d) k = Inr (case dict_get d (PStr k) of None \<Rightarrow> PNone | Some v \<Rightarrow> v)"
| "py_get v k = Inl AttributeError"

fun py_getitem :: "pyval \<Rightarrow> string \<Rightarrow> error + pyval" where
  "py_getitem (PDict d) k = (case dict_get d (PStr k) of None \<Rightarrow> Inl (KeyError k) | Some v \<Rightarrow> Inr v)"
| "py_getitem v k = Inl TypeError"

text \<open>
  \<^verbatim>\<open>for x in v\<close>: a list gives its elements, a string its characters, a
  dictionary its keys; nothing else is iterable.
\<close>

fun py_iter :: "pyval \<Rightarrow> error + pyval list" where
  "py_iter (PList xs) = Inr xs"
| "py_iter (PStr s) = Inr (map (\<lambda>c. PStr [c]) s)"
| "py_iter (PDict d) = Inr (map fst d)"
| "py_iter v = Inl TypeError"

definition is_str :: "pyval \<Rightarrow> bool" where
  "is_str v = (case v of PStr s \<Rightarrow> True | _ \<Rightarrow> False)"

text \<open>\<^verbatim>\<open>isinstance(v, int)\<close>: \<^verbatim>\<open>bool\<close> is a subclass of \<^verbatim>\<open>int\<close>.\<close>

definition is_int :: "pyval \<Rightarrow> bool" where
  "is_int v = (case v of PInt i \<Rightarrow> True | PBool b \<Rightarrow> True | _ \<Rightarrow> False)"

text \<open>
  Modelled from the spec: \<^verbatim>\<open>try_get\<close> of \<^verbatim>\<open>yt_dlp/utils\<close> is defined
  outside the extractor's module. Section 9: "safe nested lookups returning null on any missing
  link", "a missing field never throws, only yields an empty result". A getter
  \<^verbatim>\<open>lambda x: x[k1][k2]...\<close> is its list of keys; the getters are tried in turn and
  the first value of the expected type is returned.
\<close>

fun path_get :: "pyval \<Rightarrow> string list \<Rightarrow> pyval option" where
  "path_get v [] = Some v"
| "path_get v (k # ks) =
     (case py_getitem v k of Inl e \<Rightarrow> None | Inr w \<Rightarrow> path_get w ks)"

fun try_get :: "pyval \<Rightarrow> string list list \<Rightarrow> (pyval \<Rightarrow> bool) \<Rightarrow> pyval" where
  "try_get src [] expected = PNone"
| "try_get src (g # gs) expected =
     (case path_get src g of
        None \<Rightarrow> try_get src gs expected
      | Some v \<Rightarrow> if expected v then v else try_get src gs expected)"

text \<open>
  Modelled from the spec: \<^verbatim>\<open>merge_dicts\<close> of \<^verbatim>\<open>yt_dlp/utils\<close>, the spec's
  "generic metadata-dict merge utility", is defined outside the extractor's module, and
  the spec says no more of it than that the format entries are tagged through it. The
  definition is the utility as the framework has it: the dictionaries are read in
  turn into an empty one; a value \<^verbatim>\<open>None\<close> is skipped; a key that is new is added;
  a key that is there keeps its value, unless that value is the empty string and the
  new one is a non-empty string.
\<close>

definition merge_step :: "pyval pydict \<Rightarrow> pyval \<times> pyval \<Rightarrow> pyval pydict" where
  "merge_step merged kv =
     (case kv of (k, v) \<Rightarrow>
        if v = PNone then merged
        else
          (case dict_get merged k of
             None \<Rightarrow> merged @ [(k, v)]
           | Some old \<Rightarrow>
               if is_str v \<and> truthy v \<and> old = PStr [] then dict_set merged k v
               else merged))"

definition merge_dicts :: "pyval pydict list \<Rightarrow> pyval pydict" where
  "merge_dicts dicts = foldl (\<lambda>merged a_dict. foldl merge_step merged a_dict) [] dicts"

section \<open>The host framework\<close>

text \<open>
  Everything else that \<^verbatim>\<open>InfoExtractor\<close> and \<^verbatim>\<open>yt_dlp/utils\<close> provide is
  defined outside the extractor's module and is a field of the record \<open>host\<close>: the
  caller's options, the answers of the network, the manifest resolvers and the utility
  functions. The theorems hold for every host. Downloads and the two regular-expression
  searches can raise; following the spec (sections 4 and 7) the manifest resolvers
  called with \<^verbatim>\<open>fatal=False\<close>, the sort and the parsers always return.
  \<open>host_download_json\<close> is what \<^verbatim>\<open>_download_json\<close> hands back for a request
  (URL, \<^verbatim>\<open>fatal\<close>, headers, query), whatever that is. A format is a dictionary.
\<close>

record host =
  params :: "(string \<times> pyval) list"
  host_download_webpage :: "string \<Rightarrow> error + string"
  host_html_search_regex :: "string \<Rightarrow> string \<Rightarrow> string \<Rightarrow> error + string"
  host_download_json ::
    "string \<Rightarrow> bool \<Rightarrow> (string \<times> string) list \<Rightarrow> (string \<times> string) list \<Rightarrow> error + pyval"
  host_m3u8_formats :: "pyval \<Rightarrow> pyval \<Rightarrow> (string \<times> string) list \<Rightarrow> pyval pydict list"
  host_mpd_formats :: "pyval \<Rightarrow> pyval \<Rightarrow> (string \<times> string) list \<Rightarrow> pyval pydict list"
  host_ism_formats :: "pyval \<Rightarrow> pyval \<Rightarrow> (string \<times> string) list \<Rightarrow> pyval pydict list"
  sort_formats :: "pyval pydict list \<Rightarrow> pyval pydict list"
  parse_iso8601 :: "pyval \<Rightarrow> pyval"
  parse_duration :: "pyval \<Rightarrow> pyval"
  parse_resolution :: "string \<Rightarrow> pyval pydict"
  url_basename :: "string \<Rightarrow> string"
  str_nonstring :: "pyval \<Rightarrow> string"

text \<open>\<^verbatim>\<open>self.get_param(name, default)\<close>.\<close>

definition get_param :: "host \<Rightarrow> string \<Rightarrow> pyval \<Rightarrow> pyval" where
  "get_param h name dflt =
     (case map_of (params h) name of None \<Rightarrow> dflt | Some v \<Rightarrow> v)"

text \<open>The calls that reach the network leave their request in the log.\<close>

definition download_webpage :: "host \<Rightarrow> string \<Rightarrow> string res" where
  "download_webpage h url = (host_download_webpage h url, [FetchWebpage url])"

definition download_json ::
  "host \<Rightarrow> string \<Rightarrow> bool \<Rightarrow> (string \<times> string) list \<Rightarrow> (string \<times> string) list \<Rightarrow> pyval res" where
  "download_json h url fatal headers query =
     (host_download_json h url fatal headers query, [FetchJson url fatal headers query])"

definition extract_m3u8_formats ::
  "host \<Rightarrow> pyval \<Rightarrow> pyval \<Rightarrow> (string \<times> string) list \<Rightarrow> pyval pydict list res" where
  "extract_m3u8_formats h u video_id headers =
     (Inr (host_m3u8_formats h u video_id headers), [ResolveHls u])"

definition extract_mpd_formats ::
  "host \<Rightarrow> pyval \<Rightarrow> pyval \<Rightarrow> (string \<times> string) list \<Rightarrow> pyval pydict list res" where
  "extract_mpd_formats h u video_id headers =
     (Inr (host_mpd_formats h u video_id headers), [ResolveDash u])"

definition extract_ism_formats ::
  "host \<Rightarrow> pyval \<Rightarrow> pyval \<Rightarrow> (string \<times> string) list \<Rightarrow> pyval pydict list res" where
  "extract_ism_formats h u video_id headers =
     (Inr (host_ism_formats h u video_id headers), [ResolveMss u])"

text \<open>
  Modelled from the spec: \<^verbatim>\<open>raise_login_required\<close> of \<^verbatim>\<open>InfoExtractor\<close> is
  defined outside the extractor's module. Section 4.1, step 1: "fail with a LoginRequiredError
  that instructs the caller to supply session cookies". The error carries the method.
\<close>

definition raise_login_required :: "string \<Rightarrow> unit res" where
  "raise_login_required method = (Inl (LoginRequired method), [])"

text \<open>
  An f-string field \<^verbatim>\<open>{v}\<close>: a string stands for itself, anything else is
  rendered by the interpreter.
\<close>

definition format_value :: "host \<Rightarrow> pyval \<Rightarrow> string" where
  "format_value h v = (case v of PStr s \<Rightarrow> s | _ \<Rightarrow> str_nonstring h v)"

section \<open>Strings, URLs and base64\<close>

text \<open>\<^verbatim>\<open>needle in haystack\<close> for strings.\<close>

fun strip_prefix :: "string \<Rightarrow> string \<Rightarrow> string option" where
  "strip_prefix [] s = Some s"
| "strip_prefix (p # ps) [] = None"
| "strip_prefix (p # ps) (c # cs) = (if p = c then strip_prefix ps cs else None)"

fun contains :: "string \<Rightarrow> string \<Rightarrow> bool" where
  "contains needle [] = (needle = [])"
| "contains needle (c # cs) =
     (if strip_prefix needle (c # cs) \<noteq> None then True else contains needle cs)"

text \<open>
  \<^verbatim>\<open>_VALID_URL\<close>, matched at the start of the URL as \<^verbatim>\<open>re.match\<close> does; the
  result is the group \<^verbatim>\<open>id\<close> that \<^verbatim>\<open>_match_id\<close> returns. The class
  \<^verbatim>\<open>[\da-f]\<close> is read on ASCII. Every choice of the pattern is forced by the next
  character, so no backtracking is lost.
\<close>

definition is_hex :: "char \<Rightarrow> bool" where
  "is_hex c = (let n = (of_char c :: nat) in (48 \<le> n \<and> n \<le> 57) \<or> (97 \<le> n \<and> n \<le> 102))"

fun hex_run :: "nat \<Rightarrow> string \<Rightarrow> string option" where
  "hex_run 0 s = Some s"
| "hex_run (Suc n) [] = None"
| "hex_run (Suc n) (c # cs) = (if is_hex c then hex_run n cs else None)"

definition match_uuid :: "string \<Rightarrow> string option" where
  "match_uuid s =
     Option.bind (hex_run 8 s) (\<lambda>r1.
     Option.bind (strip_prefix ''-'' r1) (\<lambda>r2.
     Option.bind (hex_run 4 r2) (\<lambda>r3.
     Option.bind (strip_prefix ''-'' r3) (\<lambda>r4.
     Option.bind (hex_run 4 r4) (\<lambda>r5.
     Option.bind (strip_prefix ''-'' r5) (\<lambda>r6.
     Option.bind (hex_run 4 r6) (\<lambda>r7.
     Option.bind (strip_prefix ''-'' r7) (\<lambda>r8.
     Option.bind (hex_run 12 r8) (\<lambda>r9. Some (take 36 s))))))))))"

definition match_subdomain :: "string \<Rightarrow> string option" where
  "match_subdomain s =
     (case strip_prefix ''web'' s of
        Some r \<Rightarrow> Some r
      | None \<Rightarrow>
          (case strip_prefix ''www'' s of
             Some r \<Rightarrow> Some r
           | None \<Rightarrow> strip_prefix ''msit'' s))"

definition match_id :: "string \<Rightarrow> error + string" where
  "match_id url =
     (case strip_prefix ''http'' url of
        None \<Rightarrow> Inl UnsupportedUrl
      | Some r0 \<Rightarrow>
          (let r1 = (case strip_prefix ''s'' r0 of Some r \<Rightarrow> r | None \<Rightarrow> r0) in
           case Option.bind (strip_prefix ''://'' r1) (\<lambda>r2.
                Option.bind (match_subdomain r2) (\<lambda>r3.
                Option.bind (strip_prefix ''.microsoftstream.com/video/'' r3) match_uuid)) of
             None \<Rightarrow> Inl UnsupportedUrl
           | Some i \<Rightarrow> Inr i))"

text \<open>
  \<^verbatim>\<open>base64.b64decode(s)\<close> of the standard library, in its default mode
  (\<^verbatim>\<open>validate=False\<close>): a text argument must be ASCII (ValueError otherwise),
  then \<^verbatim>\<open>binascii.a2b_base64\<close> reads the characters one by one. Characters outside
  the alphabet are skipped; \<open>q\<close> is the position in the current group of four,
  \<open>l\<close> the bits left over, \<open>p\<close> the pad characters seen since the last data
  character. A pad that completes a group ends the decoding; data that ends inside a
  group is \<^verbatim>\<open>binascii.Error\<close>.
\<close>

definition b64_value :: "char \<Rightarrow> nat option" where
  "b64_value c =
     (let n = (of_char c :: nat) in
      if 65 \<le> n \<and> n \<le> 90 then Some (n - 65)
      else if 97 \<le> n \<and> n \<le> 122 then Some (n - 71)
      else if 48 \<le> n \<and> n \<le> 57 then Some (n + 4)
      else if n = 43 then Some 62
      else if n = 47 then Some 63
      else None)"

fun a2b_base64 :: "string \<Rightarrow> nat \<Rightarrow> nat \<Rightarrow> nat \<Rightarrow> string \<Rightarrow> error + string" where
  "a2b_base64 [] q l p out = (if q \<noteq> 0 then Inl BinasciiError else Inr out)"
| "a2b_base64 (c # cs) q l p out =
     (if c = CHR ''='' then
        (if 2 \<le> q \<and> 4 \<le> q + (p + 1) then Inr out
         else a2b_base64 cs q l (if 2 \<le> q then p + 1 else p) out)
      else
        (case b64_value c of
           None \<Rightarrow> a2b_base64 cs q l p out
         | Some v \<Rightarrow>
             if q = 0 then a2b_base64 cs 1 v 0 out
             else if q = 1 then a2b_base64 cs 2 (v mod 16) 0 (out @ [char_of (l * 4 + v div 16)])
             else if q = 2 then a2b_base64 cs 3 (v mod 4) 0 (out @ [char_of (l * 16 + v div 4)])
             else a2b_base64 cs 0 0 0 (out @ [char_of (l * 64 + v)])))"

definition b64decode :: "string \<Rightarrow> error + string" where
  "b64decode s =
     (if list_ex (\<lambda>c. 128 \<le> (of_char c :: nat)) s then Inl ValueError
      else a2b_base64 s 0 0 0 [])"

text \<open>
  \<^verbatim>\<open>str(b)\<close> of a \<^verbatim>\<open>bytes\<close> object is its \<^verbatim>\<open>repr\<close>: the letter b, a
  quote, the bytes with the unprintable ones escaped, the quote.
\<close>

definition hex_digit :: "nat \<Rightarrow> char" where
  "hex_digit n = (if n < 10 then char_of (48 + n) else char_of (87 + n))"

definition repr_byte :: "char \<Rightarrow> char \<Rightarrow> string" where
  "repr_byte quote c =
     (let n = (of_char c :: nat) in
      if c = quote \<or> n = 92 then [CHR 0x5C, c]
      else if n = 9 then [CHR 0x5C, CHR ''t'']
      else if n = 10 then [CHR 0x5C, CHR ''n'']
      else if n = 13 then [CHR 0x5C, CHR ''r'']
      else if n < 32 \<or> 127 \<le> n then [CHR 0x5C, CHR ''x'', hex_digit (n div 16), hex_digit (n mod 16)]
      else [c])"

definition str_bytes :: "string \<Rightarrow> string" where
  "str_bytes bs =
     (let quote = (if CHR 0x27 \<in> set bs \<and> CHR 0x22 \<notin> set bs then CHR 0x22 else CHR 0x27)
      in [CHR ''b'', quote] @ concat (map (repr_byte quote) bs) @ [quote])"

section \<open>The extractor\<close>

subsection \<open>Subtitles\<close>

text \<open>
  The loop of \<^verbatim>\<open>_get_all_subtitles\<close> over the text tracks (lines 34 to 41). The
  two dictionaries map a language to the list of its entries; \<^verbatim>\<open>sub_dict\<close> is the
  one of the two that the track's \<^verbatim>\<open>autoGenerated\<close> selects.
\<close>

definition track_entry :: "pyval \<Rightarrow> pyval" where
  "track_entry u = PDict [(PStr ''ext'', PStr ''vtt''), (PStr ''url'', u)]"

text \<open>\<^verbatim>\<open>d.setdefault(k, []).append(x)\<close>.\<close>

definition setdefault_append :: "pyval list pydict \<Rightarrow> pyval \<Rightarrow> pyval \<Rightarrow> error + pyval list pydict" where
  "setdefault_append d k x =
     (if \<not> hashable k then Inl TypeError
      else case dict_get d k of
             None \<Rightarrow> Inr (d @ [(k, [x])])
           | Some xs \<Rightarrow> Inr (dict_set d k (xs @ [x])))"

fun add_tracks ::
  "pyval list \<Rightarrow> pyval list pydict \<Rightarrow> pyval list pydict \<Rightarrow>
   error + (pyval list pydict \<times> pyval list pydict)" where
  "add_tracks [] subtitles automatic_captions = Inr (subtitles, automatic_captions)"
| "add_tracks (track # rest) subtitles automatic_captions =
     ebind (py_get track ''language'') (\<lambda>lang.
       if \<not> truthy lang then add_tracks rest subtitles automatic_captions
       else
         ebind (py_get track ''url'') (\<lambda>u.
           if \<not> truthy u then add_tracks rest subtitles automatic_captions
           else
             ebind (py_get track ''autoGenerated'') (\<lambda>auto.
             ebind (py_getitem track ''language'') (\<lambda>key.
             ebind (py_get track ''url'') (\<lambda>u'.
               if truthy auto then
                 ebind (setdefault_append automatic_captions key (track_entry u'))
                   (\<lambda>ac. add_tracks rest subtitles ac)
               else
                 ebind (setdefault_append subtitles key (track_entry u'))
                   (\<lambda>sb. add_tracks rest sb automatic_captions))))))"

text \<open>
  \<^verbatim>\<open>_get_all_subtitles\<close> (lines 27 to 45): the download is not fatal, and
  \<^verbatim>\<open>.get('value')\<close> is called on whatever it hands back.
\<close>

definition dict_of_lists :: "pyval list pydict \<Rightarrow> pyval" where
  "dict_of_lists d = PDict (map (\<lambda>(k, xs). (k, PList xs)) d)"

definition texttracks_url :: "host \<Rightarrow> string \<Rightarrow> pyval \<Rightarrow> string" where
  "texttracks_url h api_url video_id =
     api_url @ ''/videos/'' @ format_value h video_id @ ''/texttracks''"

definition get_all_subtitles ::
  "host \<Rightarrow> string \<Rightarrow> pyval \<Rightarrow> (string \<times> string) list \<Rightarrow> pyval pydict res" where
  "get_all_subtitles h api_url video_id headers =
     bind (download_json h (texttracks_url h api_url video_id) False headers
             [(''api-version'', ''1.4-private'')]) (\<lambda>response.
       lift (ebind (py_get response ''value'') (\<lambda>v.
             ebind (py_iter (py_or v (PList []))) (\<lambda>text_tracks.
             ebind (add_tracks text_tracks [] []) (\<lambda>(subtitles, automatic_captions).
               Inr [(PStr ''subtitles'', dict_of_lists subtitles),
                    (PStr ''automatic_captions'', dict_of_lists automatic_captions)])))))"

text \<open>\<^verbatim>\<open>extract_all_subtitles\<close> (lines 47 to 52).\<close>

definition wants_subtitles :: "host \<Rightarrow> bool" where
  "wants_subtitles h =
     (truthy (get_param h ''writesubtitles'' (PBool False))
      \<or> truthy (get_param h ''writeautomaticsub'' (PBool False))
      \<or> truthy (get_param h ''listsubtitles'' PNone))"

definition extract_all_subtitles ::
  "host \<Rightarrow> string \<Rightarrow> pyval \<Rightarrow> (string \<times> string) list \<Rightarrow> pyval pydict res" where
  "extract_all_subtitles h api_url video_id headers =
     (if wants_subtitles h then get_all_subtitles h api_url video_id headers
      else ret [])"

subsection \<open>Thumbnails\<close>

text \<open>
  One round of the loop over the size labels (lines 75 to 86): \<open>None\<close> is
  \<^verbatim>\<open>continue\<close>.
  \<^verbatim>\<open>try_get\<close> with the type \<^verbatim>\<open>str\<close> returns a string or \<^verbatim>\<open>None\<close>, so a
  truthy \<open>thumbnail_url\<close> is a string.
\<close>

definition pad4 :: "string \<Rightarrow> string" where
  "pad4 thumb_name =
     thumb_name @ replicate (nat ((- int (length thumb_name)) mod 4)) (CHR ''='')"

definition thumbnail :: "host \<Rightarrow> pyval \<Rightarrow> string \<Rightarrow> error + pyval option" where
  "thumbnail h video_data thumbnail_id =
     (let thumbnail_url = try_get video_data [[''posterImage'', thumbnail_id, ''url'']] is_str in
      if \<not> truthy thumbnail_url then Inr None
      else
        (case thumbnail_url of
           PStr u \<Rightarrow>
             (let thumb = [(PStr ''id'', PStr thumbnail_id), (PStr ''url'', PStr u)];
                  thumb_name = url_basename h u
              in ebind (b64decode (pad4 thumb_name)) (\<lambda>decoded.
                   Inr (Some (PDict (dict_update thumb (parse_resolution h (str_bytes decoded)))))))
         | _ \<Rightarrow> Inr None))"

fun thumbnails_loop :: "host \<Rightarrow> pyval \<Rightarrow> string list \<Rightarrow> error + pyval list" where
  "thumbnails_loop h video_data [] = Inr []"
| "thumbnails_loop h video_data (thumbnail_id # ids) =
     ebind (thumbnail h video_data thumbnail_id) (\<lambda>t.
     ebind (thumbnails_loop h video_data ids) (\<lambda>ts.
       Inr (case t of None \<Rightarrow> ts | Some thumb \<Rightarrow> thumb # ts)))"

definition thumbnail_ids :: "string list" where
  "thumbnail_ids = [''extraSmall'', ''small'', ''medium'', ''large'']"

definition thumbnails_of :: "host \<Rightarrow> pyval \<Rightarrow> error + pyval list" where
  "thumbnails_of h video_data = thumbnails_loop h video_data thumbnail_ids"

subsection \<open>Formats\<close>

text \<open>
  The loop over \<^verbatim>\<open>video_data['playbackUrls']\<close> (lines 88 to 102), then the language
  tag and the sort (lines 103 and 104).
\<close>

definition playlist_formats ::
  "host \<Rightarrow> pyval \<Rightarrow> (string \<times> string) list \<Rightarrow> pyval \<Rightarrow> pyval pydict list res" where
  "playlist_formats h video_id headers playlist =
     bind (lift (py_getitem playlist ''mimeType'')) (\<lambda>mime.
       if mime = PStr ''application/vnd.apple.mpegurl'' then
         bind (lift (py_getitem playlist ''playbackUrl'')) (\<lambda>u.
           extract_m3u8_formats h u video_id headers)
       else if mime = PStr ''application/dash+xml'' then
         bind (lift (py_getitem playlist ''playbackUrl'')) (\<lambda>u.
           extract_mpd_formats h u video_id headers)
       else if mime = PStr ''application/vnd.ms-sstr+xml'' then
         bind (lift (py_getitem playlist ''playbackUrl'')) (\<lambda>u.
           extract_ism_formats h u video_id headers)
       else ret [])"

fun collect_formats ::
  "host \<Rightarrow> pyval \<Rightarrow> (string \<times> string) list \<Rightarrow> pyval list \<Rightarrow> pyval pydict list res" where
  "collect_formats h video_id headers [] = ret []"
| "collect_formats h video_id headers (playlist # rest) =
     bind (playlist_formats h video_id headers playlist) (\<lambda>fs.
     bind (collect_formats h video_id headers rest) (\<lambda>gs. ret (fs @ gs)))"

definition formats_of ::
  "host \<Rightarrow> pyval \<Rightarrow> pyval \<Rightarrow> (string \<times> string) list \<Rightarrow> pyval \<Rightarrow> pyval pydict list res" where
  "formats_of h video_data video_id headers language =
     bind (lift (ebind (py_getitem video_data ''playbackUrls'') py_iter)) (\<lambda>playlists.
     bind (collect_formats h video_id headers playlists) (\<lambda>formats.
       ret (sort_formats h
              (map (\<lambda>f. merge_dicts [f, [(PStr ''language'', language)]]) formats))))"

subsection \<open>The extraction\<close>

text \<open>
  Lines 71 to 122 of \<^verbatim>\<open>_real_extract\<close>: everything after the video metadata has
  arrived. The keys of the dictionary display are distinct, and the subtitle step
  contributes only \<^verbatim>\<open>subtitles\<close> and \<^verbatim>\<open>automatic_captions\<close>, so the display
  is the concatenation of its parts.
\<close>

definition webpage_url_of :: "host \<Rightarrow> pyval \<Rightarrow> string" where
  "webpage_url_of h video_id = ''https://web.microsoftstream.com/video/'' @ format_value h video_id"

text \<open>The dictionary display of the \<^verbatim>\<open>return\<close> statement, lines 106 to 122.\<close>

definition info_dict ::
  "host \<Rightarrow> pyval \<Rightarrow> pyval \<Rightarrow> pyval \<Rightarrow> pyval \<Rightarrow> pyval list \<Rightarrow> pyval pydict \<Rightarrow> pyval \<Rightarrow>
   pyval pydict list \<Rightarrow> pyval pydict" where
  "info_dict h video_data video_id title description thumbnails subs created formats =
     [(PStr ''id'', video_id),
      (PStr ''title'', title),
      (PStr ''description'', description),
      (PStr ''uploader'', try_get video_data [[''creator'', ''name'']] is_str),
      (PStr ''uploader_id'',
         try_get video_data [[''creator'', ''mail''], [''creator'', ''id'']] is_str),
      (PStr ''thumbnails'', PList thumbnails)]
     @ subs @
     [(PStr ''timestamp'', parse_iso8601 h created),
      (PStr ''duration'',
         parse_duration h (try_get video_data [[''media'', ''duration'']] (\<lambda>v. True))),
      (PStr ''webpage_url'', PStr (webpage_url_of h video_id)),
      (PStr ''view_count'', try_get video_data [[''metrics'', ''views'']] is_int),
      (PStr ''like_count'', try_get video_data [[''metrics'', ''likes'']] is_int),
      (PStr ''comment_count'', try_get video_data [[''metrics'', ''comments'']] is_int),
      (PStr ''formats'', PList (map PDict formats))]"

definition real_extract_tail ::
  "host \<Rightarrow> string \<Rightarrow> string \<Rightarrow> (string \<times> string) list \<Rightarrow> pyval \<Rightarrow> pyval pydict res" where
  "real_extract_tail h url_id api_url headers video_data =
     bind (lift (py_get video_data ''id'')) (\<lambda>api_id.
     let video_id = py_or api_id (PStr url_id) in
     bind (lift (py_get video_data ''language'')) (\<lambda>language.
     bind (lift (thumbnails_of h video_data)) (\<lambda>thumbnails.
     bind (formats_of h video_data video_id headers language) (\<lambda>formats.
     bind (lift (py_getitem video_data ''name'')) (\<lambda>title.
     bind (lift (py_get video_data ''description'')) (\<lambda>description.
     bind (extract_all_subtitles h api_url video_id headers) (\<lambda>subs.
     bind (lift (py_get video_data ''created'')) (\<lambda>created.
       ret (info_dict h video_data video_id title description thumbnails subs created
              formats)))))))))"

text \<open>\<^verbatim>\<open>_real_extract\<close>, lines 54 to 70, and then the rest.\<close>

definition title_marker :: string where
  "title_marker = ''<title>Microsoft Stream</title>''"

definition access_token_re :: string where
  "access_token_re = [CHR 0x22] @ ''AccessToken'' @ [CHR 0x22] @ '':'' @ [CHR 0x22] @ ''(.+?)'' @ [CHR 0x22]"

definition api_url_re :: string where
  "api_url_re = [CHR 0x22] @ ''ApiGatewayUri'' @ [CHR 0x22] @ '':'' @ [CHR 0x22] @ ''(.+?)'' @ [CHR 0x22]"

definition video_query :: "(string \<times> string) list" where
  "video_query = [(''$expand'', ''creator,tokens,status,liveEvent,extensions''),
                  (''api-version'', ''1.4-private'')]"

definition real_extract :: "host \<Rightarrow> string \<Rightarrow> pyval pydict res" where
  "real_extract h url =
     bind (lift (match_id url)) (\<lambda>video_id.
     bind (download_webpage h url) (\<lambda>webpage.
     bind (if \<not> contains title_marker webpage then raise_login_required ''cookies''
           else ret ()) (\<lambda>_.
     bind (lift (host_html_search_regex h access_token_re webpage ''access token'')) (\<lambda>access_token.
     bind (lift (host_html_search_regex h api_url_re webpage ''api url'')) (\<lambda>api_url.
     let headers = [(''Authorization'', ''Bearer '' @ access_token)] in
     bind (download_json h (api_url @ ''/videos/'' @ video_id) True headers video_query)
       (\<lambda>video_data.
     real_extract_tail h video_id api_url headers video_data))))))"

section \<open>A sample host\<close>

text \<open>
  Modelled from the spec: \<^verbatim>\<open>url_basename\<close> and \<^verbatim>\<open>parse_resolution\<close> of
  \<^verbatim>\<open>yt_dlp/utils\<close> are defined outside the extractor's module. Section 4.1,
  step 5: "take the final path segment" and "parse the decoded text as a resolution
  string (e.g. "1920x1080") to recover width/height". The general theorems do not
  depend on these two definitions: they are the utilities of the sample host, on which
  the theorems are run.
\<close>

fun after_scheme :: "string \<Rightarrow> string option" where
  "after_scheme [] = None"
| "after_scheme (c # cs) =
     (case strip_prefix ''://'' (c # cs) of Some r \<Rightarrow> Some r | None \<Rightarrow> after_scheme cs)"

definition url_path :: "string \<Rightarrow> string" where
  "url_path u =
     (let rest = (case after_scheme u of None \<Rightarrow> u | Some r \<Rightarrow> r)
      in dropWhile (\<lambda>c. c \<noteq> CHR ''/'')
           (takeWhile (\<lambda>c. c \<noteq> CHR ''?'' \<and> c \<noteq> CHR ''#'') rest))"

definition spec_url_basename :: "string \<Rightarrow> string" where
  "spec_url_basename u =
     rev (takeWhile (\<lambda>c. c \<noteq> CHR ''/'') (dropWhile (\<lambda>c. c = CHR ''/'') (rev (url_path u))))"

definition is_digit :: "char \<Rightarrow> bool" where
  "is_digit c = (let n = (of_char c :: nat) in 48 \<le> n \<and> n \<le> 57)"

definition int_of_digits :: "string \<Rightarrow> int" where
  "int_of_digits ds = foldl (\<lambda>a c. 10 * a + (int (of_char c) - 48)) 0 ds"

definition resolution_at :: "string \<Rightarrow> (string \<times> string) option" where
  "resolution_at s =
     (let w = takeWhile is_digit s in
      case dropWhile is_digit s of
        [] \<Rightarrow> None
      | c # r \<Rightarrow>
          (let ht = takeWhile is_digit r in
           if w \<noteq> [] \<and> (c = CHR ''x'' \<or> c = CHR ''X'') \<and> ht \<noteq> [] then Some (w, ht)
           else None))"

fun find_resolution :: "string \<Rightarrow> (string \<times> string) option" where
  "find_resolution [] = None"
| "find_resolution (c # cs) =
     (case resolution_at (c # cs) of Some r \<Rightarrow> Some r | None \<Rightarrow> find_resolution cs)"

definition spec_parse_resolution :: "string \<Rightarrow> pyval pydict" where
  "spec_parse_resolution s =
     (case find_resolution s of
        None \<Rightarrow> []
      | Some (w, ht) \<Rightarrow>
          [(PStr ''width'', PInt (int_of_digits w)), (PStr ''height'', PInt (int_of_digits ht))])"

text \<open>
  The sample host: a signed-in page, a token and a gateway, the video metadata
  \<open>video_data\<close> for the fatal request, \<open>text_tracks\<close> for the other one, and
  resolvers that return one format each.
\<close>

definition sample_url :: string where
  "sample_url = ''https://web.microsoftstream.com/video/6e51d928-4f46-4f1c-b141-369925e37b62?list=user''"

definition sample_page :: string where
  "sample_page = ''<html><head><title>Microsoft Stream</title></head></html>''"

definition sample_format :: "string \<Rightarrow> pyval \<Rightarrow> pyval pydict" where
  "sample_format fid u = [(PStr ''format_id'', PStr fid), (PStr ''url'', u)]"

definition sample_host :: "(string \<times> pyval) list \<Rightarrow> string \<Rightarrow> pyval \<Rightarrow> pyval \<Rightarrow> host" where
  "sample_host opts page video_data text_tracks =
     \<lparr> params = opts,
       host_download_webpage = (\<lambda>u. Inr page),
       host_html_search_regex =
         (\<lambda>pattern webpage name. Inr (if name = ''access token'' then ''t0k'' else ''https://api.test/api'')),
       host_download_json = (\<lambda>u fatal headers query. Inr (if fatal then video_data else text_tracks)),
       host_m3u8_formats = (\<lambda>u video_id headers. [sample_format ''hls-0'' u]),
       host_mpd_formats = (\<lambda>u video_id headers. [sample_format ''dash-0'' u]),
       host_ism_formats = (\<lambda>u video_id headers. [sample_format ''mss-0'' u]),
       sort_formats = (\<lambda>fs. fs),
       parse_iso8601 = (\<lambda>v. PNone),
       parse_duration = (\<lambda>v. PNone),
       parse_resolution = spec_parse_resolution,
       url_basename = spec_url_basename,
       str_nonstring = (\<lambda>v. ''?'') \<rparr>"

definition unknown_playlist :: pyval where
  "unknown_playlist =
     PDict [(PStr ''mimeType'', PStr ''video/x-unknown''),
            (PStr ''playbackUrl'', PStr ''https://cdn.test/a'')]"

definition dash_playlist :: pyval where
  "dash_playlist =
     PDict [(PStr ''mimeType'', PStr ''application/dash+xml''),
            (PStr ''playbackUrl'', PStr ''https://cdn.test/b.mpd'')]"

definition sample_video_fields :: "pyval pydict" where
  "sample_video_fields =
     [(PStr ''name'', PStr ''Town hall''),
      (PStr ''language'', PStr ''en''),
      (PStr ''posterImage'',
         PDict [(PStr ''small'',
            PDict [(PStr ''url'', PStr ''https://img.test/t/MTI4MHg3MjAuanBn'')])]),
      (PStr ''playbackUrls'', PList [unknown_playlist, dash_playlist])]"

definition sample_video :: pyval where
  "sample_video = PDict sample_video_fields"

definition sample_track_list :: "pyval list" where
  "sample_track_list =
     [PDict [(PStr ''language'', PStr ''en''), (PStr ''url'', PStr ''u1''),
             (PStr ''autoGenerated'', PBool False)],
      PDict [(PStr ''language'', PStr ''en''), (PStr ''url'', PStr ''u2''),
             (PStr ''autoGenerated'', PBool True)],
      PDict [(PStr ''language'', PStr ''fr''), (PStr ''url'', PStr ''u3'')]]"

definition sample_tracks :: pyval where
  "sample_tracks = PDict [(PStr ''value'', PList sample_track_list)]"

definition nameless_video :: pyval where
  "nameless_video = PDict [(PStr ''language'', PStr ''en''), (PStr ''playbackUrls'', PList [])]"

definition playlistless_video :: pyval where
  "playlistless_video = PDict [(PStr ''name'', PStr ''Town hall''), (PStr ''language'', PStr ''en'')]"

definition signin_page :: string where
  "signin_page = ''<html><head><title>Sign in to your account</title></head></html>''"

definition blank_id_video :: pyval where
  "blank_id_video =
     PDict [(PStr ''id'', PStr ''''),
            (PStr ''name'', PStr ''Town hall''),
            (PStr ''playbackUrls'', PList [])]"

definition bad_thumb_video :: pyval where
  "bad_thumb_video =
     PDict [(PStr ''name'', PStr ''Town hall''),
            (PStr ''posterImage'',
               PDict [(PStr ''small'',
                  PDict [(PStr ''url'', PStr ''https://img.test/t/poster.jpg'')])]),
            (PStr ''playbackUrls'', PList [])]"

definition subtitle_host :: host where
  "subtitle_host = sample_host [(''listsubtitles'', PBool True)] sample_page sample_video sample_tracks"

text \<open>A host whose DASH resolver returns a format with a language of its own.\<close>

definition fr_host :: host where
  "fr_host =
     (sample_host [] sample_page sample_video sample_tracks)
       \<lparr> host_mpd_formats :=
           (\<lambda>u video_id headers.
              [[(PStr ''format_id'', PStr ''dash-fr''), (PStr ''url'', u),
                (PStr ''language'', PStr ''fr'')]]) \<rparr>"

section \<open>The vocabulary of the statements\<close>

text \<open>
  The spec's words on the text tracks (section 4.1, step 7): "Each track lacking a
  language or URL is dropped. Remaining tracks are partitioned into human vs. automatic
  maps keyed by language, preserving multiple track entries per language as an ordered
  list." \<open>spec_track_list auto lang tracks\<close> is the list the spec asks for under the
  language \<open>lang\<close>, in the automatic map when \<open>auto\<close> and in the human map
  otherwise; it is compared with what \<open>add_tracks\<close> builds. A field that is missing
  reads as \<^verbatim>\<open>None\<close>.
\<close>

definition track_field :: "pyval \<Rightarrow> string \<Rightarrow> pyval" where
  "track_field t k = (case py_get t k of Inl e \<Rightarrow> PNone | Inr v \<Rightarrow> v)"

definition spec_track_list :: "bool \<Rightarrow> pyval \<Rightarrow> pyval list \<Rightarrow> pyval list" where
  "spec_track_list auto lang tracks =
     map (\<lambda>t. track_entry (track_field t ''url''))
       (filter (\<lambda>t. truthy (track_field t ''language'') \<and> truthy (track_field t ''url'')
                    \<and> truthy (track_field t ''autoGenerated'') = auto
                    \<and> key_eq (track_field t ''language'') lang) tracks)"

text \<open>
  A text track as the API sends it: a JSON object whose language, if any, can be a
  dictionary key.
\<close>

definition is_dict :: "pyval \<Rightarrow> bool" where
  "is_dict v = (case v of PDict d \<Rightarrow> True | _ \<Rightarrow> False)"

definition wellformed_track :: "pyval \<Rightarrow> bool" where
  "wellformed_track t = (is_dict t \<and> hashable (track_field t ''language''))"

definition extend_entry :: "pyval list option \<Rightarrow> pyval list \<Rightarrow> pyval list option" where
  "extend_entry old new =
     (case old of None \<Rightarrow> if new = [] then None else Some new | Some ys \<Rightarrow> Some (ys @ new))"

text \<open>No key of the dictionary occurs twice.\<close>

fun distinct_keys :: "'v pydict \<Rightarrow> bool" where
  "distinct_keys [] = True"
| "distinct_keys ((k, v) # d) = (dict_get d k = None \<and> distinct_keys d)"

text \<open>
  \<open>dict_del d k\<close> is the dictionary \<open>d\<close> without the key \<open>k\<close>: a record in
  which the field is absent.
\<close>

definition dict_del :: "'v pydict \<Rightarrow> pyval \<Rightarrow> 'v pydict" where
  "dict_del d k = filter (\<lambda>(k', v). \<not> key_eq k' k) d"

text \<open>
  The text-track request among the requests of an extraction: the JSON request whose URL
  ends in \<^verbatim>\<open>/texttracks\<close>, sent with \<^verbatim>\<open>fatal=False\<close>.
\<close>

definition texttracks_call :: "call \<Rightarrow> bool" where
  "texttracks_call c =
     (case c of
        FetchJson u fatal headers query \<Rightarrow>
          strip_prefix (rev ''/texttracks'') (rev u) \<noteq> None \<and> fatal = False
      | _ \<Rightarrow> False)"

text \<open>
  The language a tagged format entry ends with: \<open>own\<close> is what the resolver's entry
  has under \<^verbatim>\<open>language\<close>, \<open>language\<close> the one of the video metadata. A resolver's
  own non-null language is kept (an empty string gives way to a non-empty one);
  otherwise the video's language is taken when it is not null; otherwise the entry has
  no \<^verbatim>\<open>language\<close> key.
\<close>

definition merged_language :: "pyval option \<Rightarrow> pyval \<Rightarrow> pyval option" where
  "merged_language own language =
     (case own of
        None \<Rightarrow> if language = PNone then None else Some language
      | Some v \<Rightarrow>
          if v = PNone then (if language = PNone then None else Some language)
          else if v = PStr [] \<and> is_str language \<and> truthy language then Some language
          else Some v)"

text \<open>
  \<open>del_field v p\<close> is the record \<open>v\<close> without the field at the end of the key path
  \<open>p\<close>: the path \<open>[k]\<close> removes the key \<open>k\<close> of \<open>v\<close>, the path \<open>k # p'\<close>
  removes \<open>p'\<close> inside the value of \<open>k\<close>. A path with nothing at its end removes
  nothing.
\<close>

fun del_field :: "pyval \<Rightarrow> string list \<Rightarrow> pyval" where
  "del_field (PDict d) [k] = PDict (dict_del d (PStr k))"
| "del_field (PDict d) (k # k' # ks) =
     PDict (map (\<lambda>(key, w). if key = PStr k then (key, del_field w (k' # ks)) else (key, w)) d)"
| "del_field v ks = v"

text \<open>
  The three types the format loop resolves (lines 90, 95 and 99), and a playlist entry
  the loop can read: \<^verbatim>\<open>playlist['mimeType']\<close> is there and, when the type is one of
  the three, \<^verbatim>\<open>playlist['playbackUrl']\<close> too.
\<close>

definition supported_mime :: "pyval \<Rightarrow> bool" where
  "supported_mime mime =
     (mime = PStr ''application/vnd.apple.mpegurl'' \<or> mime = PStr ''application/dash+xml''
      \<or> mime = PStr ''application/vnd.ms-sstr+xml'')"

definition entry_ok :: "pyval \<Rightarrow> bool" where
  "entry_ok playlist =
     (case py_getitem playlist ''mimeType'' of
        Inl e \<Rightarrow> False
      | Inr mime \<Rightarrow>
          if supported_mime mime
          then (case py_getitem playlist ''playbackUrl'' of Inl e \<Rightarrow> False | Inr u \<Rightarrow> True)
          else True)"

text \<open>Two records with a playlist entry that lacks a field.\<close>

definition typeless_entry_video :: pyval where
  "typeless_entry_video =
     PDict [(PStr ''name'', PStr ''Town hall''),
            (PStr ''playbackUrls'',
               PList [PDict [(PStr ''playbackUrl'', PStr ''https://cdn.test/b.mpd'')]])]"

definition urlless_entry_video :: pyval where
  "urlless_entry_video =
     PDict [(PStr ''name'', PStr ''Town hall''),
            (PStr ''playbackUrls'',
               PList [PDict [(PStr ''mimeType'', PStr ''application/dash+xml'')]])]"

section \<open>Basic lemmas\<close>

lemma ebind_Inr_iff: "ebind m f = Inr y \<longleftrightarrow> (\<exists>x. m = Inr x \<and> f x = Inr y)"
  by (cases m) (simp_all add: ebind_def)

lemma ebind_simps: "ebind (Inl e) f = Inl e" "ebind (Inr x) f = f x"
  by (simp_all add: ebind_def)

lemma bind_lift: "bind (lift m) f = (case m of Inl e \<Rightarrow> (Inl e, []) | Inr x \<Rightarrow> f x)"
  by (cases m) (simp_all add: bind_def lift_def)

lemma bind_ret: "bind (ret x) f = f x"
  by (simp add: bind_def ret_def)

lemma bind_pair: "bind (Inl e, l) f = (Inl e, l)" "bind (Inr x, l) f = (fst (f x), l @ snd (f x))"
  by (simp_all add: bind_def)

lemma fst_bind_Inr_iff:
  "fst (bind m f) = Inr y \<longleftrightarrow> (\<exists>x. fst m = Inr x \<and> fst (f x) = Inr y)"
  by (cases "fst m") (simp_all add: bind_def)

lemma fst_lift: "fst (lift m) = m"
  by (simp add: lift_def)

lemma fst_ret: "fst (ret x) = Inr x"
  by (simp add: ret_def)

lemma strip_prefix_Some_iff: "strip_prefix p s = Some r \<longleftrightarrow> s = p @ r"
  by (induction p s rule: strip_prefix.induct) auto

text \<open>\<open>contains\<close> is the substring test.\<close>

lemma contains_iff: "contains needle s \<longleftrightarrow> (\<exists>pre post. s = pre @ needle @ post)"
proof (induction s)
  case Nil
  then show ?case by auto
next
  case (Cons c cs)
  show ?case
  proof (cases "strip_prefix needle (c # cs)")
    case (Some r)
    then have "c # cs = [] @ needle @ r" by (simp add: strip_prefix_Some_iff)
    then have "\<exists>pre post. c # cs = pre @ needle @ post" by blast
    moreover have "contains needle (c # cs)" using Some by simp
    ultimately show ?thesis by simp
  next
    case None
    have "(\<exists>pre post. c # cs = pre @ needle @ post) \<longleftrightarrow> (\<exists>pre post. cs = pre @ needle @ post)"
    proof
      assume "\<exists>pre post. c # cs = pre @ needle @ post"
      then obtain pre post where e: "c # cs = pre @ needle @ post" by blast
      show "\<exists>pre post. cs = pre @ needle @ post"
      proof (cases pre)
        case Nil
        with e have "strip_prefix needle (c # cs) = Some post" by (simp add: strip_prefix_Some_iff)
        with None show ?thesis by simp
      next
        case (Cons a pre')
        with e show ?thesis by auto
      qed
    next
      assume "\<exists>pre post. cs = pre @ needle @ post"
      then obtain pre post where "cs = pre @ needle @ post" by blast
      then have "c # cs = (c # pre) @ needle @ post" by simp
      then show "\<exists>pre post. c # cs = pre @ needle @ post" by blast
    qed
    with None Cons show ?thesis by simp
  qed
qed

text \<open>The identifier taken from a URL has 36 characters.\<close>

lemma hex_run_length: "hex_run n s = Some r \<Longrightarrow> length s = n + length r"
  by (induction n s rule: hex_run.induct) (auto split: if_splits)

lemma match_uuid_length: "match_uuid s = Some i \<Longrightarrow> length i = 36"
  unfolding match_uuid_def
  by (auto simp: Option.bind_eq_Some_conv strip_prefix_Some_iff dest!: hex_run_length)

lemma match_id_length: "match_id url = Inr i \<Longrightarrow> length i = 36"
  unfolding match_id_def
  by (auto simp: Let_def Option.bind_eq_Some_conv split: option.splits dest: match_uuid_length)

lemma match_id_sample: "match_id sample_url = Inr ''6e51d928-4f46-4f1c-b141-369925e37b62''"
  by code_simp

text \<open>What a successful extraction has gone through.\<close>

lemma fst_login_check:
  "fst (if \<not> c then raise_login_required m else ret ()) = Inr x \<longleftrightarrow> c"
  by (simp add: raise_login_required_def ret_def)

lemma real_extract_tail_Inr_iff:
  "fst (real_extract_tail h url_id api_url headers video_data) = Inr r \<longleftrightarrow>
     (\<exists>api_id language thumbnails formats title description subs created.
        py_get video_data ''id'' = Inr api_id \<and>
        py_get video_data ''language'' = Inr language \<and>
        thumbnails_of h video_data = Inr thumbnails \<and>
        fst (formats_of h video_data (py_or api_id (PStr url_id)) headers language) = Inr formats \<and>
        py_getitem video_data ''name'' = Inr title \<and>
        py_get video_data ''description'' = Inr description \<and>
        fst (extract_all_subtitles h api_url (py_or api_id (PStr url_id)) headers) = Inr subs \<and>
        py_get video_data ''created'' = Inr created \<and>
        r = info_dict h video_data (py_or api_id (PStr url_id)) title description thumbnails subs
              created formats)"
  unfolding real_extract_tail_def
  by (simp add: fst_bind_Inr_iff fst_lift fst_ret Let_def) blast

lemma real_extract_Inr_iff:
  "fst (real_extract h url) = Inr r \<longleftrightarrow>
     (\<exists>video_id webpage access_token api_url video_data.
        match_id url = Inr video_id \<and>
        host_download_webpage h url = Inr webpage \<and>
        contains title_marker webpage \<and>
        host_html_search_regex h access_token_re webpage ''access token'' = Inr access_token \<and>
        host_html_search_regex h api_url_re webpage ''api url'' = Inr api_url \<and>
        host_download_json h (api_url @ ''/videos/'' @ video_id) True
          [(''Authorization'', ''Bearer '' @ access_token)] video_query = Inr video_data \<and>
        fst (real_extract_tail h video_id api_url
               [(''Authorization'', ''Bearer '' @ access_token)] video_data) = Inr r)"
  unfolding real_extract_def
  by (simp add: fst_bind_Inr_iff fst_lift fst_login_check Let_def download_webpage_def
      download_json_def del: append.simps)

lemma py_get_Inr:
  "py_get v k = Inr x \<Longrightarrow>
     \<exists>d. v = PDict d \<and> x = (case dict_get d (PStr k) of None \<Rightarrow> PNone | Some w \<Rightarrow> w)"
  by (cases v) auto

lemma snd_get_all_subtitles:
  "snd (get_all_subtitles h api_url video_id headers) =
     [FetchJson (texttracks_url h api_url video_id) False headers
        [(''api-version'', ''1.4-private'')]]"
  by (simp add: get_all_subtitles_def download_json_def bind_def lift_def split: sum.splits)

lemma extract_all_subtitles_skip:
  "\<not> wants_subtitles h \<Longrightarrow> extract_all_subtitles h api_url video_id headers = (Inr [], [])"
  by (simp add: extract_all_subtitles_def ret_def)

text \<open>The sample host without subtitle options, run on the sample URL.\<close>

lemma sample_extraction:
  "real_extract (sample_host [] sample_page sample_video sample_tracks) sample_url =
     (Inr [(PStr ''id'', PStr ''6e51d928-4f46-4f1c-b141-369925e37b62''),
           (PStr ''title'', PStr ''Town hall''),
           (PStr ''description'', PNone),
           (PStr ''uploader'', PNone),
           (PStr ''uploader_id'', PNone),
           (PStr ''thumbnails'',
              PList [PDict [(PStr ''id'', PStr ''small''),
                            (PStr ''url'', PStr ''https://img.test/t/MTI4MHg3MjAuanBn''),
                            (PStr ''width'', PInt 1280),
                            (PStr ''height'', PInt 720)]]),
           (PStr ''timestamp'', PNone),
           (PStr ''duration'', PNone),
           (PStr ''webpage_url'',
              PStr ''https://web.microsoftstream.com/video/6e51d928-4f46-4f1c-b141-369925e37b62''),
           (PStr ''view_count'', PNone),
           (PStr ''like_count'', PNone),
           (PStr ''comment_count'', PNone),
           (PStr ''formats'',
              PList [PDict [(PStr ''format_id'', PStr ''dash-0''),
                            (PStr ''url'', PStr ''https://cdn.test/b.mpd''),
                            (PStr ''language'', PStr ''en'')]])],
      [FetchWebpage sample_url,
       FetchJson ''https://api.test/api/videos/6e51d928-4f46-4f1c-b141-369925e37b62'' True
         [(''Authorization'', ''Bearer t0k'')] video_query,
       ResolveDash (PStr ''https://cdn.test/b.mpd'')])"
  by code_simp

section \<open>The login check\<close>

text \<open>
  Claim C7. Whenever the fetched page does not contain the literal substring
  \<^verbatim>\<open><title>Microsoft Stream</title>\<close>, whatever else it contains, the extraction
  fails with the login-required error for the method \<^verbatim>\<open>cookies\<close>, and the page
  fetch is the only request it has sent.
\<close>

theorem login_required:
  assumes "match_id url = Inr video_id"
    and "host_download_webpage h url = Inr webpage"
    and "\<not> (\<exists>pre post. webpage = pre @ ''<title>Microsoft Stream</title>'' @ post)"
  shows "real_extract h url = (Inl (LoginRequired ''cookies''), [FetchWebpage url])"
proof -
  have "\<not> contains title_marker webpage"
    using assms(3) by (simp add: contains_iff title_marker_def)
  then show ?thesis
    using assms(1,2)
    by (simp add: real_extract_def bind_lift download_webpage_def bind_pair raise_login_required_def)
qed

theorem login_required_witness:
  "real_extract (sample_host [] signin_page sample_video sample_tracks) sample_url
     = (Inl (LoginRequired ''cookies''), [FetchWebpage sample_url])"
proof -
  have d: "host_download_webpage (sample_host [] signin_page sample_video sample_tracks) sample_url
             = Inr signin_page"
    by (simp add: sample_host_def)
  have "\<not> contains ''<title>Microsoft Stream</title>'' signin_page"
    by code_simp
  then have n: "\<not> (\<exists>pre post. signin_page = pre @ ''<title>Microsoft Stream</title>'' @ post)"
    by (simp only: contains_iff not_False_eq_True)
  show ?thesis
    using login_required [OF match_id_sample d n] .
qed

section \<open>The subtitle step\<close>

lemma list_all_snd_bind:
  "list_all P (snd m) \<Longrightarrow> (\<And>x. list_all P (snd (f x))) \<Longrightarrow> list_all P (snd (bind m f))"
  by (cases "fst m") (simp_all add: bind_def)

lemma snd_bind_Inr: "fst m = Inr x \<Longrightarrow> snd (bind m f) = snd m @ snd (f x)"
  by (simp add: bind_def)

lemma snd_lift: "snd (lift m) = []"
  by (simp add: lift_def)

lemma snd_ret: "snd (ret x) = []"
  by (simp add: ret_def)

lemma playlist_formats_calls:
  "list_all (\<lambda>c. \<not> texttracks_call c) (snd (playlist_formats h v hs p))"
  by (auto simp: playlist_formats_def bind_lift extract_m3u8_formats_def extract_mpd_formats_def
      extract_ism_formats_def ret_def texttracks_call_def split: sum.splits)

lemma collect_formats_calls:
  "list_all (\<lambda>c. \<not> texttracks_call c) (snd (collect_formats h v hs ps))"
  by (induction ps) (auto simp: snd_ret intro!: list_all_snd_bind playlist_formats_calls)

lemma formats_of_calls:
  "list_all (\<lambda>c. \<not> texttracks_call c) (snd (formats_of h vd v hs l))"
  unfolding formats_of_def
  by (intro list_all_snd_bind) (simp_all add: snd_lift snd_ret collect_formats_calls)

lemma real_extract_tail_calls:
  assumes "\<not> wants_subtitles h"
  shows "list_all (\<lambda>c. \<not> texttracks_call c) (snd (real_extract_tail h url_id api_url hs vd))"
  unfolding real_extract_tail_def Let_def
  by (intro list_all_snd_bind)
    (simp_all add: snd_lift snd_ret formats_of_calls extract_all_subtitles_skip [OF assms])

lemma download_webpage_calls:
  "list_all (\<lambda>c. \<not> texttracks_call c) (snd (download_webpage h url))"
  by (simp add: download_webpage_def texttracks_call_def)

lemma download_json_fatal_calls:
  "list_all (\<lambda>c. \<not> texttracks_call c) (snd (download_json h u True hs q))"
  by (simp add: download_json_def texttracks_call_def)

lemma login_check_calls:
  "list_all P (snd (if c then raise_login_required m else ret ()))"
  by (simp add: raise_login_required_def ret_def)

lemma real_extract_calls:
  assumes "\<not> wants_subtitles h"
  shows "list_all (\<lambda>c. \<not> texttracks_call c) (snd (real_extract h url))"
  unfolding real_extract_def Let_def
  by (intro list_all_snd_bind)
    (simp_all add: snd_lift download_webpage_calls download_json_fatal_calls login_check_calls
      real_extract_tail_calls [OF assms])

lemma texttracks_call_request:
  "texttracks_call (FetchJson (texttracks_url h api_url video_id) False hs q)"
  by (simp add: texttracks_call_def texttracks_url_def strip_prefix_Some_iff)

lemma real_extract_tail_snd:
  assumes "fst (real_extract_tail h url_id api_url hs vd) = Inr r"
  shows "\<exists>video_id language.
           snd (real_extract_tail h url_id api_url hs vd) =
             snd (formats_of h vd video_id hs language) @
             snd (extract_all_subtitles h api_url video_id hs)"
proof -
  from assms obtain api_id language thumbnails formats title description subs created where
    "py_get vd ''id'' = Inr api_id"
    "py_get vd ''language'' = Inr language"
    "thumbnails_of h vd = Inr thumbnails"
    "fst (formats_of h vd (py_or api_id (PStr url_id)) hs language) = Inr formats"
    "py_getitem vd ''name'' = Inr title"
    "py_get vd ''description'' = Inr description"
    "fst (extract_all_subtitles h api_url (py_or api_id (PStr url_id)) hs) = Inr subs"
    "py_get vd ''created'' = Inr created"
    unfolding real_extract_tail_Inr_iff by blast
  then have "snd (real_extract_tail h url_id api_url hs vd) =
      snd (formats_of h vd (py_or api_id (PStr url_id)) hs language) @
      snd (extract_all_subtitles h api_url (py_or api_id (PStr url_id)) hs)"
    by (simp add: real_extract_tail_def bind_lift Let_def snd_bind_Inr snd_ret)
  then show ?thesis by blast
qed

lemma real_extract_snd:
  assumes "fst (real_extract h url) = Inr r"
  shows "\<exists>url_id api_url hs vd q.
           snd (real_extract h url) =
             [FetchWebpage url, FetchJson (api_url @ ''/videos/'' @ url_id) True hs q] @
             snd (real_extract_tail h url_id api_url hs vd) \<and>
           fst (real_extract_tail h url_id api_url hs vd) = Inr r"
proof -
  from assms obtain video_id webpage access_token api_url video_data where
    "match_id url = Inr video_id"
    "host_download_webpage h url = Inr webpage"
    "contains title_marker webpage"
    "host_html_search_regex h access_token_re webpage ''access token'' = Inr access_token"
    "host_html_search_regex h api_url_re webpage ''api url'' = Inr api_url"
    "host_download_json h (api_url @ ''/videos/'' @ video_id) True
       [(''Authorization'', ''Bearer '' @ access_token)] video_query = Inr video_data"
    and t: "fst (real_extract_tail h video_id api_url
               [(''Authorization'', ''Bearer '' @ access_token)] video_data) = Inr r"
    unfolding real_extract_Inr_iff by blast
  then have "snd (real_extract h url) =
      [FetchWebpage url, FetchJson (api_url @ ''/videos/'' @ video_id) True
         [(''Authorization'', ''Bearer '' @ access_token)] video_query] @
      snd (real_extract_tail h video_id api_url
             [(''Authorization'', ''Bearer '' @ access_token)] video_data)"
    by (simp add: real_extract_def bind_lift Let_def bind_pair download_webpage_def
        download_json_def ret_def del: append.simps)
  with t show ?thesis by blast
qed

lemma subtitle_extraction:
  "real_extract subtitle_host sample_url =
     (Inr [(PStr ''id'', PStr ''6e51d928-4f46-4f1c-b141-369925e37b62''),
           (PStr ''title'', PStr ''Town hall''),
           (PStr ''description'', PNone),
           (PStr ''uploader'', PNone),
           (PStr ''uploader_id'', PNone),
           (PStr ''thumbnails'',
              PList [PDict [(PStr ''id'', PStr ''small''),
                            (PStr ''url'', PStr ''https://img.test/t/MTI4MHg3MjAuanBn''),
                            (PStr ''width'', PInt 1280),
                            (PStr ''height'', PInt 720)]]),
           (PStr ''subtitles'',
              PDict [(PStr ''en'', PList [PDict [(PStr ''ext'', PStr ''vtt''), (PStr ''url'', PStr ''u1'')]]),
                     (PStr ''fr'', PList [PDict [(PStr ''ext'', PStr ''vtt''), (PStr ''url'', PStr ''u3'')]])]),
           (PStr ''automatic_captions'',
              PDict [(PStr ''en'', PList [PDict [(PStr ''ext'', PStr ''vtt''), (PStr ''url'', PStr ''u2'')]])]),
           (PStr ''timestamp'', PNone),
           (PStr ''duration'', PNone),
           (PStr ''webpage_url'',
              PStr ''https://web.microsoftstream.com/video/6e51d928-4f46-4f1c-b141-369925e37b62''),
           (PStr ''view_count'', PNone),
           (PStr ''like_count'', PNone),
           (PStr ''comment_count'', PNone),
           (PStr ''formats'',
              PList [PDict [(PStr ''format_id'', PStr ''dash-0''),
                            (PStr ''url'', PStr ''https://cdn.test/b.mpd''),
                            (PStr ''language'', PStr ''en'')]])],
      [FetchWebpage sample_url,
       FetchJson ''https://api.test/api/videos/6e51d928-4f46-4f1c-b141-369925e37b62'' True
         [(''Authorization'', ''Bearer t0k'')] video_query,
       ResolveDash (PStr ''https://cdn.test/b.mpd''),
       FetchJson ''https://api.test/api/videos/6e51d928-4f46-4f1c-b141-369925e37b62/texttracks''
         False [(''Authorization'', ''Bearer t0k'')] [(''api-version'', ''1.4-private'')]])"
  by code_simp

text \<open>
  Claim C8. The subtitle step sends the text-track request exactly when one of the three
  options \<^verbatim>\<open>writesubtitles\<close>, \<^verbatim>\<open>writeautomaticsub\<close>, \<^verbatim>\<open>listsubtitles\<close> is
  set (truthy), and nothing otherwise. For a whole extraction: when none is set, no
  request of the extraction is a text-track request; when one is set, a successful
  extraction has sent exactly one.
\<close>

theorem fetch_iff_option:
  "snd (extract_all_subtitles h api_url video_id headers) =
     (if truthy (get_param h ''writesubtitles'' (PBool False))
         \<or> truthy (get_param h ''writeautomaticsub'' (PBool False))
         \<or> truthy (get_param h ''listsubtitles'' PNone)
      then [FetchJson (texttracks_url h api_url video_id) False headers
              [(''api-version'', ''1.4-private'')]]
      else []) \<and>
   (\<forall>url. \<not> wants_subtitles h \<longrightarrow> list_all (\<lambda>c. \<not> texttracks_call c) (snd (real_extract h url))) \<and>
   (\<forall>url r. wants_subtitles h \<longrightarrow> fst (real_extract h url) = Inr r \<longrightarrow>
       length (filter texttracks_call (snd (real_extract h url))) = 1)"
proof -
  have a: "snd (extract_all_subtitles h api_url video_id headers) =
     (if truthy (get_param h ''writesubtitles'' (PBool False))
         \<or> truthy (get_param h ''writeautomaticsub'' (PBool False))
         \<or> truthy (get_param h ''listsubtitles'' PNone)
      then [FetchJson (texttracks_url h api_url video_id) False headers
              [(''api-version'', ''1.4-private'')]]
      else [])"
    by (simp add: extract_all_subtitles_def wants_subtitles_def snd_get_all_subtitles ret_def)
  have c: "length (filter texttracks_call (snd (real_extract h url))) = 1"
    if w: "wants_subtitles h" and ok: "fst (real_extract h url) = Inr r" for url r
  proof -
    from real_extract_snd [OF ok] obtain url_id api hs vd q where
      s: "snd (real_extract h url) =
            [FetchWebpage url, FetchJson (api @ ''/videos/'' @ url_id) True hs q] @
            snd (real_extract_tail h url_id api hs vd)"
      and t: "fst (real_extract_tail h url_id api hs vd) = Inr r"
      by blast
    from real_extract_tail_snd [OF t] obtain vid language where
      u: "snd (real_extract_tail h url_id api hs vd) =
            snd (formats_of h vd vid hs language) @ snd (extract_all_subtitles h api vid hs)"
      by blast
    have f: "filter texttracks_call (snd (formats_of h vd vid hs language)) = []"
      using formats_of_calls [of h vd vid hs language]
      by (simp add: filter_empty_conv list_all_iff)
    have e: "snd (extract_all_subtitles h api vid hs) =
               [FetchJson (texttracks_url h api vid) False hs [(''api-version'', ''1.4-private'')]]"
      using w by (simp add: extract_all_subtitles_def snd_get_all_subtitles)
    show ?thesis
      unfolding s u e
      by (simp add: f texttracks_call_request) (simp add: texttracks_call_def)
  qed
  from a real_extract_calls c show ?thesis
    by blast
qed


theorem fetch_iff_option_witness:
  "wants_subtitles subtitle_host \<and>
   (\<exists>r. fst (real_extract subtitle_host sample_url) = Inr r) \<and>
   length (filter texttracks_call (snd (real_extract subtitle_host sample_url))) = 1 \<and>
   \<not> wants_subtitles (sample_host [] sample_page sample_video sample_tracks) \<and>
   list_all (\<lambda>c. \<not> texttracks_call c)
     (snd (real_extract (sample_host [] sample_page sample_video sample_tracks) sample_url))"
proof -
  have w: "wants_subtitles subtitle_host"
    by (simp add: wants_subtitles_def get_param_def subtitle_host_def sample_host_def)
  obtain r where e: "fst (real_extract subtitle_host sample_url) = Inr r"
    by (simp add: subtitle_extraction)
  have n: "\<not> wants_subtitles (sample_host [] sample_page sample_video sample_tracks)"
    by (simp add: wants_subtitles_def get_param_def sample_host_def)
  from fetch_iff_option [of subtitle_host "''a''" PNone "[]"] w e
  have 1: "length (filter texttracks_call (snd (real_extract subtitle_host sample_url))) = 1"
    by blast
  from fetch_iff_option [of "sample_host [] sample_page sample_video sample_tracks" "''a''" PNone "[]"] n
  have 2: "list_all (\<lambda>c. \<not> texttracks_call c)
     (snd (real_extract (sample_host [] sample_page sample_video sample_tracks) sample_url))"
    by blast
  from w e n 1 2 show ?thesis
    by blast
qed

text \<open>
  Claim C10. When none of the three options is set, the record returned by a successful
  extraction has exactly the thirteen keys below: no \<^verbatim>\<open>subtitles\<close> key and no
  \<^verbatim>\<open>automatic_captions\<close> key at all.
\<close>

theorem no_subtitle_keys:
  assumes "\<not> wants_subtitles h" and "fst (real_extract h url) = Inr r"
  shows "map fst r = map PStr [''id'', ''title'', ''description'', ''uploader'', ''uploader_id'',
           ''thumbnails'', ''timestamp'', ''duration'', ''webpage_url'', ''view_count'',
           ''like_count'', ''comment_count'', ''formats'']
         \<and> dict_get r (PStr ''subtitles'') = None
         \<and> dict_get r (PStr ''automatic_captions'') = None"
proof -
  from assms(2) obtain video_id api_url headers video_data where
    "fst (real_extract_tail h video_id api_url headers video_data) = Inr r"
    unfolding real_extract_Inr_iff by blast
  then obtain vid title description thumbnails subs created formats where
    s: "fst (extract_all_subtitles h api_url vid headers) = Inr subs"
    and r: "r = info_dict h video_data vid title description thumbnails subs created formats"
    unfolding real_extract_tail_Inr_iff by blast
  from s assms(1) have "subs = []"
    by (simp add: extract_all_subtitles_skip)
  with r show ?thesis
    by (simp add: info_dict_def)
qed

theorem no_subtitle_keys_witness:
  "\<not> wants_subtitles (sample_host [] sample_page sample_video sample_tracks) \<and>
   (\<exists>r. fst (real_extract (sample_host [] sample_page sample_video sample_tracks) sample_url) = Inr r
        \<and> map fst r = map PStr [''id'', ''title'', ''description'', ''uploader'', ''uploader_id'',
             ''thumbnails'', ''timestamp'', ''duration'', ''webpage_url'', ''view_count'',
             ''like_count'', ''comment_count'', ''formats'']
        \<and> dict_get r (PStr ''subtitles'') = None
        \<and> dict_get r (PStr ''automatic_captions'') = None)"
proof -
  have w: "\<not> wants_subtitles (sample_host [] sample_page sample_video sample_tracks)"
    by (simp add: wants_subtitles_def get_param_def sample_host_def)
  obtain r where
    e: "fst (real_extract (sample_host [] sample_page sample_video sample_tracks) sample_url) = Inr r"
    by (simp add: sample_extraction)
  from no_subtitle_keys [OF w e] w e show ?thesis
    by blast
qed

text \<open>
  Claim C1 says that a failed text-track download leaves the extraction alive, with
  empty subtitle maps. The download is called with \<^verbatim>\<open>fatal=False\<close> and then hands
  back \<^verbatim>\<open>False\<close>, on which \<^verbatim>\<open>.get('value')\<close> raises: the extraction aborts
  after the request. Here the sample host is asked for subtitles and its text-track
  download fails.
\<close>

lemma get_all_subtitles_no_result:
  assumes "host_download_json h (texttracks_url h api_url video_id) False headers
             [(''api-version'', ''1.4-private'')] = Inr response"
    and "response = PBool False \<or> response = PNone"
  shows "fst (get_all_subtitles h api_url video_id headers) = Inl AttributeError"
  using assms
  by (auto simp: get_all_subtitles_def download_json_def bind_def lift_def ebind_def)

theorem failed_texttracks_aborts:
  "real_extract
     (sample_host [(''writesubtitles'', PBool True)] sample_page sample_video (PBool False))
     sample_url
   = (Inl AttributeError,
      [FetchWebpage sample_url,
       FetchJson ''https://api.test/api/videos/6e51d928-4f46-4f1c-b141-369925e37b62'' True
         [(''Authorization'', ''Bearer t0k'')] video_query,
       ResolveDash (PStr ''https://cdn.test/b.mpd''),
       FetchJson ''https://api.test/api/videos/6e51d928-4f46-4f1c-b141-369925e37b62/texttracks''
         False [(''Authorization'', ''Bearer t0k'')] [(''api-version'', ''1.4-private'')]])"
  by code_simp

section \<open>The identifier\<close>

text \<open>
  Claim C4, as amended. The record of every successful extraction has an \<^verbatim>\<open>id\<close>.
  When the video metadata has no \<^verbatim>\<open>id\<close>, or one that is null or empty (falsy),
  the output \<^verbatim>\<open>id\<close> is the 36-character identifier taken from the URL; when the
  metadata has a non-empty (truthy) \<^verbatim>\<open>id\<close>, the output \<^verbatim>\<open>id\<close> is that value.
\<close>

theorem output_id:
  assumes "fst (real_extract h url) = Inr r"
  shows "\<exists>url_id access_token api_url d.
           match_id url = Inr url_id \<and> length url_id = 36 \<and>
           host_download_json h (api_url @ ''/videos/'' @ url_id) True
             [(''Authorization'', ''Bearer '' @ access_token)] video_query = Inr (PDict d) \<and>
           dict_get r (PStr ''id'') =
             Some (case dict_get d (PStr ''id'') of
                     None \<Rightarrow> PStr url_id
                   | Some v \<Rightarrow> if truthy v then v else PStr url_id)"
proof -
  from assms obtain url_id access_token api_url video_data where
    m: "match_id url = Inr url_id"
    and j: "host_download_json h (api_url @ ''/videos/'' @ url_id) True
             [(''Authorization'', ''Bearer '' @ access_token)] video_query = Inr video_data"
    and t: "fst (real_extract_tail h url_id api_url
               [(''Authorization'', ''Bearer '' @ access_token)] video_data) = Inr r"
    unfolding real_extract_Inr_iff by blast
  from t obtain api_id title description thumbnails subs created formats where
    g: "py_get video_data ''id'' = Inr api_id"
    and r: "r = info_dict h video_data (py_or api_id (PStr url_id)) title description thumbnails
                  subs created formats"
    unfolding real_extract_tail_Inr_iff by blast
  from py_get_Inr [OF g] obtain d where
    d: "video_data = PDict d"
    and a: "api_id = (case dict_get d (PStr ''id'') of None \<Rightarrow> PNone | Some w \<Rightarrow> w)"
    by blast
  have "dict_get r (PStr ''id'') = Some (py_or api_id (PStr url_id))"
    using r by (simp add: info_dict_def)
  also have "py_or api_id (PStr url_id) =
      (case dict_get d (PStr ''id'') of
         None \<Rightarrow> PStr url_id
       | Some v \<Rightarrow> if truthy v then v else PStr url_id)"
    using a by (simp add: py_or_def split: option.splits)
  finally show ?thesis
    using m j d match_id_length [OF m] by blast
qed

theorem output_id_witness:
  "\<exists>r url_id access_token api_url d.
     fst (real_extract (sample_host [] sample_page sample_video sample_tracks) sample_url) = Inr r \<and>
     match_id sample_url = Inr url_id \<and> length url_id = 36 \<and>
     host_download_json (sample_host [] sample_page sample_video sample_tracks)
       (api_url @ ''/videos/'' @ url_id) True
       [(''Authorization'', ''Bearer '' @ access_token)] video_query = Inr (PDict d) \<and>
     dict_get r (PStr ''id'') =
       Some (case dict_get d (PStr ''id'') of
               None \<Rightarrow> PStr url_id
             | Some v \<Rightarrow> if truthy v then v else PStr url_id)"
proof -
  obtain r where
    e: "fst (real_extract (sample_host [] sample_page sample_video sample_tracks) sample_url) = Inr r"
    by (simp add: sample_extraction)
  from output_id [OF e] e show ?thesis
    by blast
qed

text \<open>
  The claim as stated fails for a metadata \<^verbatim>\<open>id\<close> that is the empty string: the
  response supplies it, and the output \<^verbatim>\<open>id\<close> is the one of the URL.
\<close>

theorem blank_id_counterexample:
  "fst (real_extract (sample_host [] sample_page blank_id_video sample_tracks) sample_url) =
     Inr [(PStr ''id'', PStr ''6e51d928-4f46-4f1c-b141-369925e37b62''),
          (PStr ''title'', PStr ''Town hall''),
          (PStr ''description'', PNone),
          (PStr ''uploader'', PNone),
          (PStr ''uploader_id'', PNone),
          (PStr ''thumbnails'', PList []),
          (PStr ''timestamp'', PNone),
          (PStr ''duration'', PNone),
          (PStr ''webpage_url'',
             PStr ''https://web.microsoftstream.com/video/6e51d928-4f46-4f1c-b141-369925e37b62''),
          (PStr ''view_count'', PNone),
          (PStr ''like_count'', PNone),
          (PStr ''comment_count'', PNone),
          (PStr ''formats'', PList [])]"
  by code_simp

section \<open>The subtitle maps\<close>

lemma key_eq_refl: "key_eq a a"
  by (cases a) auto

lemma key_eq_sym: "key_eq a b \<Longrightarrow> key_eq b a"
  by (cases a; cases b) (auto split: if_splits)

lemma key_eq_trans: "key_eq a b \<Longrightarrow> key_eq b c \<Longrightarrow> key_eq a c"
  by (cases a; cases b; cases c) (auto split: if_splits)

lemma key_eq_right: "key_eq k k' \<Longrightarrow> key_eq a k = key_eq a k'"
  by (blast intro: key_eq_trans key_eq_sym)

lemma dict_get_key_eq: "key_eq k k' \<Longrightarrow> dict_get d k = dict_get d k'"
  by (induction d) (auto simp: key_eq_right)

lemma dict_get_append:
  "dict_get (d @ e) k = (case dict_get d k of None \<Rightarrow> dict_get e k | Some v \<Rightarrow> Some v)"
  by (induction d) auto

lemma dict_get_dict_set:
  "dict_get (dict_set d k v) k' = (if key_eq k k' then Some v else dict_get d k')"
proof (induction d)
  case Nil
  then show ?case by simp
next
  case (Cons p d)
  obtain k0 w where p: "p = (k0, w)" by (cases p)
  show ?case
  proof (cases "key_eq k0 k")
    case True
    then have "key_eq k0 k' = key_eq k k'"
      by (blast intro: key_eq_trans key_eq_sym)
    with True p show ?thesis by simp
  next
    case False
    have "key_eq k0 k' \<Longrightarrow> \<not> key_eq k k'"
      using False by (blast intro: key_eq_trans key_eq_sym)
    with False p Cons show ?thesis by auto
  qed
qed

lemma setdefault_append_lookup:
  assumes "hashable k"
  shows "\<exists>d'. setdefault_append d k x = Inr d' \<and>
           (\<forall>lang. dict_get d' lang =
              (if key_eq k lang then Some ((case dict_get d lang of None \<Rightarrow> [] | Some ys \<Rightarrow> ys) @ [x])
               else dict_get d lang))"
proof (cases "dict_get d k")
  case None
  have "dict_get (d @ [(k, [x])]) lang =
          (if key_eq k lang then Some ((case dict_get d lang of None \<Rightarrow> [] | Some ys \<Rightarrow> ys) @ [x])
           else dict_get d lang)" for lang
    using None dict_get_key_eq [of k lang d]
    by (auto simp: dict_get_append split: option.splits)
  with None assms show ?thesis
    by (simp add: setdefault_append_def)
next
  case (Some xs)
  have "dict_get (dict_set d k (xs @ [x])) lang =
          (if key_eq k lang then Some ((case dict_get d lang of None \<Rightarrow> [] | Some ys \<Rightarrow> ys) @ [x])
           else dict_get d lang)" for lang
  proof (cases "key_eq k lang")
    case True
    then have "dict_get d lang = Some xs"
      using Some dict_get_key_eq [of k lang d] by simp
    with True show ?thesis by (simp add: dict_get_dict_set)
  next
    case False
    then show ?thesis by (simp add: dict_get_dict_set)
  qed
  with Some assms show ?thesis
    by (simp add: setdefault_append_def)
qed

lemma spec_track_list_Nil: "spec_track_list auto lang [] = []"
  by (simp add: spec_track_list_def)

lemma spec_track_list_Cons:
  "spec_track_list auto lang (t # ts) =
     (if truthy (track_field t ''language'') \<and> truthy (track_field t ''url'')
         \<and> truthy (track_field t ''autoGenerated'') = auto
         \<and> key_eq (track_field t ''language'') lang
      then track_entry (track_field t ''url'') # spec_track_list auto lang ts
      else spec_track_list auto lang ts)"
  by (simp add: spec_track_list_def)

lemma extend_entry_Nil: "extend_entry (dict_get d lang) [] = dict_get d lang"
  by (simp add: extend_entry_def split: option.splits)

lemma extend_entry_Cons:
  "extend_entry (Some ((case old of None \<Rightarrow> [] | Some ys \<Rightarrow> ys) @ [x])) xs
     = extend_entry old (x # xs)"
  by (simp add: extend_entry_def split: option.splits)

lemma py_getitem_truthy:
  "truthy (track_field (PDict d) k) \<Longrightarrow> py_getitem (PDict d) k = Inr (track_field (PDict d) k)"
  by (auto simp: track_field_def split: option.splits)

lemma py_get_dict: "py_get (PDict d) k = Inr (track_field (PDict d) k)"
  by (simp add: track_field_def)

lemma add_tracks_lookup:
  assumes "list_all wellformed_track tracks"
  shows "\<exists>subs acs. add_tracks tracks s0 a0 = Inr (subs, acs) \<and>
           (\<forall>lang. dict_get subs lang = extend_entry (dict_get s0 lang) (spec_track_list False lang tracks)) \<and>
           (\<forall>lang. dict_get acs lang = extend_entry (dict_get a0 lang) (spec_track_list True lang tracks))"
  using assms
proof (induction tracks arbitrary: s0 a0)
  case Nil
  then show ?case by (simp add: spec_track_list_Nil extend_entry_Nil)
next
  case (Cons t ts)
  from Cons.prems have wt: "wellformed_track t" and rest: "list_all wellformed_track ts"
    by simp_all
  from wt obtain d where t: "t = PDict d"
    by (cases t) (auto simp: wellformed_track_def is_dict_def)
  from wt have hk: "hashable (track_field t ''language'')"
    by (simp add: wellformed_track_def)
  let ?lang = "track_field t ''language''"
  let ?url = "track_field t ''url''"
  let ?auto = "track_field t ''autoGenerated''"
  show ?case
  proof (cases "truthy ?lang \<and> truthy ?url")
    case False
    then have "add_tracks (t # ts) s0 a0 = add_tracks ts s0 a0"
      using t by (auto simp: py_get_dict ebind_simps simp del: py_get.simps py_getitem.simps)
    moreover have "spec_track_list b lang (t # ts) = spec_track_list b lang ts" for b lang
      using False by (auto simp: spec_track_list_Cons)
    ultimately show ?thesis
      using Cons.IH [OF rest, of s0 a0] by simp
  next
    case True
    show ?thesis
    proof (cases "truthy ?auto")
      case auto: True
      from setdefault_append_lookup [OF hk, of a0 "track_entry ?url"] obtain a1 where
        a1: "setdefault_append a0 ?lang (track_entry ?url) = Inr a1"
        and l1: "\<And>lang. dict_get a1 lang =
              (if key_eq ?lang lang
               then Some ((case dict_get a0 lang of None \<Rightarrow> [] | Some ys \<Rightarrow> ys) @ [track_entry ?url])
               else dict_get a0 lang)"
        by blast
      have step: "add_tracks (t # ts) s0 a0 = add_tracks ts s0 a1"
        using True auto a1 t py_getitem_truthy [of d "''language''"]
        by (simp add: py_get_dict ebind_simps del: py_get.simps py_getitem.simps)
      have s: "spec_track_list False lang (t # ts) = spec_track_list False lang ts" for lang
        using auto by (simp add: spec_track_list_Cons)
      have a: "extend_entry (dict_get a1 lang) (spec_track_list True lang ts)
                 = extend_entry (dict_get a0 lang) (spec_track_list True lang (t # ts))" for lang
        using True auto by (simp add: l1 spec_track_list_Cons extend_entry_Cons)
      show ?thesis
        using Cons.IH [OF rest, of s0 a1] by (simp add: step s a del: add_tracks.simps)
    next
      case manual: False
      from setdefault_append_lookup [OF hk, of s0 "track_entry ?url"] obtain s1 where
        s1: "setdefault_append s0 ?lang (track_entry ?url) = Inr s1"
        and l1: "\<And>lang. dict_get s1 lang =
              (if key_eq ?lang lang
               then Some ((case dict_get s0 lang of None \<Rightarrow> [] | Some ys \<Rightarrow> ys) @ [track_entry ?url])
               else dict_get s0 lang)"
        by blast
      have step: "add_tracks (t # ts) s0 a0 = add_tracks ts s1 a0"
        using True manual s1 t py_getitem_truthy [of d "''language''"]
        by (simp add: py_get_dict ebind_simps del: py_get.simps py_getitem.simps)
      have a: "spec_track_list True lang (t # ts) = spec_track_list True lang ts" for lang
        using manual by (simp add: spec_track_list_Cons)
      have s: "extend_entry (dict_get s1 lang) (spec_track_list False lang ts)
                 = extend_entry (dict_get s0 lang) (spec_track_list False lang (t # ts))" for lang
        using True manual by (simp add: l1 spec_track_list_Cons extend_entry_Cons)
      show ?thesis
        using Cons.IH [OF rest, of s1 a0] by (simp add: step s a del: add_tracks.simps)
    qed
  qed
qed


lemma distinct_keys_append:
  "distinct_keys d \<Longrightarrow> dict_get d k = None \<Longrightarrow> distinct_keys (d @ [(k, v)])"
proof (induction d)
  case Nil
  then show ?case by simp
next
  case (Cons p d)
  obtain k0 w where p: "p = (k0, w)" by (cases p)
  from Cons.prems p have n: "\<not> key_eq k k0"
    by (auto dest: key_eq_sym split: if_splits)
  from Cons p n show ?case
    by (auto simp: dict_get_append split: if_splits)
qed

lemma distinct_keys_dict_set: "distinct_keys d \<Longrightarrow> distinct_keys (dict_set d k v)"
proof (induction d)
  case Nil
  then show ?case by simp
next
  case (Cons p d)
  obtain k0 w where p: "p = (k0, w)" by (cases p)
  from Cons p show ?case
    by (auto simp: dict_get_dict_set dest: key_eq_sym)
qed

lemma setdefault_append_distinct:
  "distinct_keys d \<Longrightarrow> setdefault_append d k x = Inr d' \<Longrightarrow> distinct_keys d'"
  by (auto simp: setdefault_append_def distinct_keys_append distinct_keys_dict_set
      split: if_splits option.splits)

lemma add_tracks_distinct:
  "add_tracks tracks s0 a0 = Inr (subs, acs) \<Longrightarrow> distinct_keys s0 \<Longrightarrow> distinct_keys a0 \<Longrightarrow>
     distinct_keys subs \<and> distinct_keys acs"
proof (induction tracks arbitrary: s0 a0)
  case Nil
  then show ?case by simp
next
  case (Cons t ts)
  from Cons.prems(1) show ?case
    using Cons.IH Cons.prems(2,3)
    by (auto simp: ebind_Inr_iff dest: setdefault_append_distinct split: if_splits)
qed

text \<open>
  Claim C5. For every text-track list of JSON objects, \<^verbatim>\<open>_get_all_subtitles\<close>
  returns the two maps \<^verbatim>\<open>subtitles\<close> and \<^verbatim>\<open>automatic_captions\<close>; each language
  is a key at most once, and under a language stands exactly the ordered list of
  \<^verbatim>\<open>{ext: vtt, url}\<close> entries of the tracks that have a language and a URL (the others
  are dropped), carry that language, and have \<^verbatim>\<open>autoGenerated\<close> false or absent (for
  \<^verbatim>\<open>subtitles\<close>) or true (for \<^verbatim>\<open>automatic_captions\<close>). The witness is the list of
  the claim: en/u1/false, en/u2/true, fr/u3.
\<close>

theorem subtitles_partition:
  assumes "host_download_json h (texttracks_url h api_url video_id) False headers
             [(''api-version'', ''1.4-private'')] = Inr response"
    and "py_get response ''value'' = Inr (PList tracks)"
    and "list_all wellformed_track tracks"
  shows "\<exists>subs acs.
           get_all_subtitles h api_url video_id headers =
             (Inr [(PStr ''subtitles'', dict_of_lists subs),
                   (PStr ''automatic_captions'', dict_of_lists acs)],
              [FetchJson (texttracks_url h api_url video_id) False headers
                 [(''api-version'', ''1.4-private'')]]) \<and>
           distinct_keys subs \<and> distinct_keys acs \<and>
           (\<forall>lang. dict_get subs lang =
              (if spec_track_list False lang tracks = [] then None
               else Some (spec_track_list False lang tracks))) \<and>
           (\<forall>lang. dict_get acs lang =
              (if spec_track_list True lang tracks = [] then None
               else Some (spec_track_list True lang tracks)))"
proof -
  from add_tracks_lookup [OF assms(3), of "[]" "[]"] obtain subs acs where
    a: "add_tracks tracks [] [] = Inr (subs, acs)"
    and s: "\<And>lang. dict_get subs lang = extend_entry None (spec_track_list False lang tracks)"
    and c: "\<And>lang. dict_get acs lang = extend_entry None (spec_track_list True lang tracks)"
    by auto
  from add_tracks_distinct [OF a] have d: "distinct_keys subs" "distinct_keys acs"
    by simp_all
  have "py_iter (py_or (PList tracks) (PList [])) = Inr tracks"
    by (cases tracks) (simp_all add: py_or_def)
  then have "get_all_subtitles h api_url video_id headers =
      (Inr [(PStr ''subtitles'', dict_of_lists subs),
            (PStr ''automatic_captions'', dict_of_lists acs)],
       [FetchJson (texttracks_url h api_url video_id) False headers
          [(''api-version'', ''1.4-private'')]])"
    using assms(1,2) a
    by (simp add: get_all_subtitles_def download_json_def bind_def lift_def ebind_simps)
  with d s c show ?thesis
    by (intro exI [of _ subs] exI [of _ acs]) (simp add: extend_entry_def)
qed

theorem subtitles_partition_witness:
  "get_all_subtitles (sample_host [] sample_page sample_video sample_tracks)
     ''https://api.test/api'' (PStr ''v1'') [] =
     (Inr [(PStr ''subtitles'',
              PDict [(PStr ''en'', PList [PDict [(PStr ''ext'', PStr ''vtt''), (PStr ''url'', PStr ''u1'')]]),
                     (PStr ''fr'', PList [PDict [(PStr ''ext'', PStr ''vtt''), (PStr ''url'', PStr ''u3'')]])]),
           (PStr ''automatic_captions'',
              PDict [(PStr ''en'', PList [PDict [(PStr ''ext'', PStr ''vtt''), (PStr ''url'', PStr ''u2'')]])])],
      [FetchJson ''https://api.test/api/videos/v1/texttracks'' False []
         [(''api-version'', ''1.4-private'')]])
   \<and> (\<exists>subs acs.
         get_all_subtitles (sample_host [] sample_page sample_video sample_tracks)
           ''https://api.test/api'' (PStr ''v1'') [] =
           (Inr [(PStr ''subtitles'', dict_of_lists subs),
                 (PStr ''automatic_captions'', dict_of_lists acs)],
            [FetchJson (texttracks_url (sample_host [] sample_page sample_video sample_tracks)
                          ''https://api.test/api'' (PStr ''v1'')) False []
               [(''api-version'', ''1.4-private'')]]) \<and>
         distinct_keys subs \<and> distinct_keys acs \<and>
         (\<forall>lang. dict_get subs lang =
            (if spec_track_list False lang sample_track_list = [] then None
             else Some (spec_track_list False lang sample_track_list))) \<and>
         (\<forall>lang. dict_get acs lang =
            (if spec_track_list True lang sample_track_list = [] then None
             else Some (spec_track_list True lang sample_track_list))))"
proof -
  have a: "host_download_json (sample_host [] sample_page sample_video sample_tracks)
             (texttracks_url (sample_host [] sample_page sample_video sample_tracks)
                ''https://api.test/api'' (PStr ''v1'')) False []
             [(''api-version'', ''1.4-private'')] = Inr sample_tracks"
    by (simp add: sample_host_def)
  have b: "py_get sample_tracks ''value'' = Inr (PList sample_track_list)"
    by (simp add: sample_tracks_def)
  have c: "list_all wellformed_track sample_track_list"
    by (simp add: sample_track_list_def wellformed_track_def is_dict_def track_field_def)
  have e: "get_all_subtitles (sample_host [] sample_page sample_video sample_tracks)
      ''https://api.test/api'' (PStr ''v1'') [] =
      (Inr [(PStr ''subtitles'',
               PDict [(PStr ''en'', PList [PDict [(PStr ''ext'', PStr ''vtt''), (PStr ''url'', PStr ''u1'')]]),
                      (PStr ''fr'', PList [PDict [(PStr ''ext'', PStr ''vtt''), (PStr ''url'', PStr ''u3'')]])]),
            (PStr ''automatic_captions'',
               PDict [(PStr ''en'', PList [PDict [(PStr ''ext'', PStr ''vtt''), (PStr ''url'', PStr ''u2'')]])])],
       [FetchJson ''https://api.test/api/videos/v1/texttracks'' False []
          [(''api-version'', ''1.4-private'')]])"
    by code_simp
  from e subtitles_partition [OF a b c] show ?thesis
    by (rule conjI)
qed

section \<open>The format loop\<close>

lemma bind_ret_right: "bind m (\<lambda>x. ret x) = m"
  by (cases m) (simp add: bind_def ret_def split: sum.splits)

lemma bind_skip: "bind (Inr [], []) (\<lambda>fs. bind m (\<lambda>gs. ret (fs @ gs))) = m"
  by (simp add: bind_pair bind_ret_right)

lemma playlist_formats_unsupported:
  assumes "py_getitem p ''mimeType'' = Inr mime"
    and "mime \<noteq> PStr ''application/vnd.apple.mpegurl''"
    and "mime \<noteq> PStr ''application/dash+xml''"
    and "mime \<noteq> PStr ''application/vnd.ms-sstr+xml''"
  shows "playlist_formats h video_id headers p = (Inr [], [])"
  using assms by (simp add: playlist_formats_def bind_lift ret_def)

lemma playlist_formats_dash:
  assumes "py_getitem q ''mimeType'' = Inr (PStr ''application/dash+xml'')"
    and "py_getitem q ''playbackUrl'' = Inr u"
  shows "playlist_formats h video_id headers q =
           (Inr (host_mpd_formats h u video_id headers), [ResolveDash u])"
  using assms by (simp add: playlist_formats_def bind_lift extract_mpd_formats_def)

lemma collect_formats_drop:
  assumes "playlist_formats h video_id headers p = (Inr [], [])"
  shows "collect_formats h video_id headers (pre @ p # post) =
           collect_formats h video_id headers (pre @ post)"
  using assms by (induction pre) (simp_all add: bind_skip)

text \<open>
  Claim C6. A playlist entry whose \<^verbatim>\<open>mimeType\<close> is none of
  \<^verbatim>\<open>application/vnd.apple.mpegurl\<close>, \<^verbatim>\<open>application/dash+xml\<close>,
  \<^verbatim>\<open>application/vnd.ms-sstr+xml\<close> yields no format, no error and no request: the
  loop gives the same result with the entry as without it. A list of one such entry and
  one DASH entry, in either order, yields exactly what the DASH resolver returns for the
  DASH entry.
\<close>

theorem unsupported_mime_skipped:
  assumes "py_getitem p ''mimeType'' = Inr mime"
    and "mime \<noteq> PStr ''application/vnd.apple.mpegurl''"
    and "mime \<noteq> PStr ''application/dash+xml''"
    and "mime \<noteq> PStr ''application/vnd.ms-sstr+xml''"
  shows "playlist_formats h video_id headers p = (Inr [], []) \<and>
         collect_formats h video_id headers (pre @ p # post) =
           collect_formats h video_id headers (pre @ post) \<and>
         (\<forall>q u. py_getitem q ''mimeType'' = Inr (PStr ''application/dash+xml'') \<longrightarrow>
                py_getitem q ''playbackUrl'' = Inr u \<longrightarrow>
                collect_formats h video_id headers [p, q] =
                  (Inr (host_mpd_formats h u video_id headers), [ResolveDash u]) \<and>
                collect_formats h video_id headers [q, p] =
                  (Inr (host_mpd_formats h u video_id headers), [ResolveDash u]))"
proof -
  have s: "playlist_formats h video_id headers p = (Inr [], [])"
    by (rule playlist_formats_unsupported [OF assms])
  have d: "collect_formats h video_id headers [p, q] =
             (Inr (host_mpd_formats h u video_id headers), [ResolveDash u]) \<and>
           collect_formats h video_id headers [q, p] =
             (Inr (host_mpd_formats h u video_id headers), [ResolveDash u])"
    if "py_getitem q ''mimeType'' = Inr (PStr ''application/dash+xml'')"
      and "py_getitem q ''playbackUrl'' = Inr u" for q u
    using playlist_formats_dash [OF that, of h video_id headers] s
    by (simp add: bind_pair ret_def)
  from s collect_formats_drop [OF s] d show ?thesis
    by blast
qed

theorem unsupported_mime_skipped_witness:
  "py_getitem unknown_playlist ''mimeType'' = Inr (PStr ''video/x-unknown'') \<and>
   py_getitem dash_playlist ''mimeType'' = Inr (PStr ''application/dash+xml'') \<and>
   collect_formats (sample_host [] sample_page sample_video sample_tracks) (PStr ''v1'') []
     [unknown_playlist, dash_playlist] =
     (Inr [sample_format ''dash-0'' (PStr ''https://cdn.test/b.mpd'')],
      [ResolveDash (PStr ''https://cdn.test/b.mpd'')])"
proof -
  have m: "py_getitem unknown_playlist ''mimeType'' = Inr (PStr ''video/x-unknown'')"
    by (simp add: unknown_playlist_def)
  have q: "py_getitem dash_playlist ''mimeType'' = Inr (PStr ''application/dash+xml'')"
    by (simp add: dash_playlist_def)
  have u: "py_getitem dash_playlist ''playbackUrl'' = Inr (PStr ''https://cdn.test/b.mpd'')"
    by (simp add: dash_playlist_def)
  have n1: "PStr ''video/x-unknown'' \<noteq> PStr ''application/vnd.apple.mpegurl''"
    and n2: "PStr ''video/x-unknown'' \<noteq> PStr ''application/dash+xml''"
    and n3: "PStr ''video/x-unknown'' \<noteq> PStr ''application/vnd.ms-sstr+xml''"
    by simp_all
  have "collect_formats (sample_host [] sample_page sample_video sample_tracks) (PStr ''v1'') []
          [unknown_playlist, dash_playlist] =
        (Inr (host_mpd_formats (sample_host [] sample_page sample_video sample_tracks)
                (PStr ''https://cdn.test/b.mpd'') (PStr ''v1'') []),
         [ResolveDash (PStr ''https://cdn.test/b.mpd'')])"
    using unsupported_mime_skipped [OF m n1 n2 n3,
        of "sample_host [] sample_page sample_video sample_tracks" "PStr ''v1''" "[]" "[]" "[]"] q u
    by blast
  with m q show ?thesis
    by (simp add: sample_host_def)
qed

section \<open>The language tag\<close>

lemma foldl_merge_step_lookup:
  assumes "distinct_keys f"
    and "\<And>k'. dict_get f k' \<noteq> None \<Longrightarrow> dict_get acc k' = None"
  shows "dict_get (foldl merge_step acc f) k =
           (case dict_get acc k of
              Some a \<Rightarrow> Some a
            | None \<Rightarrow> (case dict_get f k of
                         Some v \<Rightarrow> if v = PNone then None else Some v
                       | None \<Rightarrow> None))"
  using assms
proof (induction f arbitrary: acc)
  case Nil
  then show ?case by (simp split: option.splits)
next
  case (Cons p f)
  obtain k0 v0 where p: "p = (k0, v0)" by (cases p)
  from Cons.prems(1) p have d0: "dict_get f k0 = None" and df: "distinct_keys f"
    by simp_all
  have a0: "dict_get acc k0 = None"
    using Cons.prems(2) [of k0] p by (simp add: key_eq_refl)
  define acc' where "acc' = merge_step acc (k0, v0)"
  have acc': "acc' = (if v0 = PNone then acc else acc @ [(k0, v0)])"
    by (simp add: acc'_def merge_step_def a0)
  have inv: "dict_get acc' k' = None" if "dict_get f k' \<noteq> None" for k'
  proof -
    from that have "dict_get (p # f) k' \<noteq> None"
      using p by simp
    then have 1: "dict_get acc k' = None"
      by (rule Cons.prems(2))
    have "\<not> key_eq k0 k'"
      using d0 that dict_get_key_eq [of k0 k' f] by auto
    with 1 show ?thesis
      by (simp add: acc' dict_get_append)
  qed
  have ih: "dict_get (foldl merge_step acc' f) k =
           (case dict_get acc' k of
              Some a \<Rightarrow> Some a
            | None \<Rightarrow> (case dict_get f k of
                         Some v \<Rightarrow> if v = PNone then None else Some v
                       | None \<Rightarrow> None))"
    by (rule Cons.IH [OF df inv])
  have step: "foldl merge_step acc (p # f) = foldl merge_step acc' f"
    by (simp add: p acc'_def)
  show ?case
  proof (cases "key_eq k0 k")
    case True
    have "dict_get f k = None"
      using d0 dict_get_key_eq [OF True, of f] by simp
    moreover have "dict_get acc k = None"
      using a0 dict_get_key_eq [OF True, of acc] by simp
    ultimately have "dict_get f k = None" and "dict_get acc k = None"
      by simp_all
    with True show ?thesis
      unfolding step ih by (simp add: p acc' dict_get_append)
  next
    case False
    then show ?thesis
      unfolding step ih by (simp add: p acc' dict_get_append split: option.splits)
  qed
qed

lemma merge_dicts_language:
  assumes "distinct_keys f"
  shows "dict_get (merge_dicts [f, [(k, v)]]) k = merged_language (dict_get f k) v"
proof -
  define m where "m = foldl merge_step [] f"
  have m: "dict_get m k = (case dict_get f k of
                             Some w \<Rightarrow> if w = PNone then None else Some w
                           | None \<Rightarrow> None)"
    unfolding m_def using foldl_merge_step_lookup [OF assms, of "[]" k] by simp
  have "merge_dicts [f, [(k, v)]] = merge_step m (k, v)"
    by (simp add: merge_dicts_def m_def)
  then show ?thesis
    using m
    by (auto simp: merge_step_def merged_language_def dict_get_append dict_get_dict_set key_eq_refl
        split: option.splits)
qed

lemma extract_all_subtitles_shape:
  assumes "fst (extract_all_subtitles h api_url video_id headers) = Inr subs"
  shows "subs = [] \<or> (\<exists>a b. subs = [(PStr ''subtitles'', a), (PStr ''automatic_captions'', b)])"
proof (cases "wants_subtitles h")
  case False
  with assms show ?thesis by (simp add: extract_all_subtitles_skip)
next
  case True
  with assms show ?thesis
    by (auto simp: extract_all_subtitles_def get_all_subtitles_def fst_bind_Inr_iff fst_lift
        ebind_Inr_iff)
qed

lemma info_dict_formats:
  assumes "subs = [] \<or> (\<exists>a b. subs = [(PStr ''subtitles'', a), (PStr ''automatic_captions'', b)])"
  shows "dict_get (info_dict h video_data video_id title description thumbnails subs created formats)
           (PStr ''formats'') = Some (PList (map PDict formats))"
  using assms by (auto simp: info_dict_def)

lemma formats_of_Inr_iff:
  "fst (formats_of h video_data video_id headers language) = Inr formats \<longleftrightarrow>
     (\<exists>playlists collected.
        ebind (py_getitem video_data ''playbackUrls'') py_iter = Inr playlists \<and>
        fst (collect_formats h video_id headers playlists) = Inr collected \<and>
        formats = sort_formats h
                    (map (\<lambda>f. merge_dicts [f, [(PStr ''language'', language)]]) collected))"
  by (auto simp: formats_of_def fst_bind_Inr_iff fst_lift fst_ret)

lemma playlist_formats_distinct:
  assumes "\<And>u v hs. list_all distinct_keys (host_m3u8_formats h u v hs)"
    and "\<And>u v hs. list_all distinct_keys (host_mpd_formats h u v hs)"
    and "\<And>u v hs. list_all distinct_keys (host_ism_formats h u v hs)"
    and "fst (playlist_formats h video_id headers p) = Inr fs"
  shows "list_all distinct_keys fs"
  using assms(4) assms(1-3)
  by (auto simp: playlist_formats_def bind_lift extract_m3u8_formats_def extract_mpd_formats_def
      extract_ism_formats_def ret_def split: sum.splits if_splits)

lemma collect_formats_distinct:
  assumes "\<And>u v hs. list_all distinct_keys (host_m3u8_formats h u v hs)"
    and "\<And>u v hs. list_all distinct_keys (host_mpd_formats h u v hs)"
    and "\<And>u v hs. list_all distinct_keys (host_ism_formats h u v hs)"
  shows "fst (collect_formats h video_id headers ps) = Inr fs \<Longrightarrow> list_all distinct_keys fs"
proof (induction ps arbitrary: fs)
  case Nil
  then show ?case by (simp add: fst_ret)
next
  case (Cons p ps)
  from Cons.prems obtain a b where
    a: "fst (playlist_formats h video_id headers p) = Inr a"
    and b: "fst (collect_formats h video_id headers ps) = Inr b"
    and fs: "fs = a @ b"
    by (auto simp: fst_bind_Inr_iff fst_ret)
  from playlist_formats_distinct [OF assms a] Cons.IH [OF b] fs show ?case
    by simp
qed

text \<open>
  Claim C9, as amended. Line 103 passes every format \<open>f\<close> that the resolvers returned
  through \<^verbatim>\<open>merge_dicts(f, {'language': language})\<close>, and line 104 sorts the list.
  For every host whose sort keeps the entries and whose resolvers return dictionaries
  (no key twice), the \<^verbatim>\<open>formats\<close> of a successful extraction are the sorted tagged
  entries of what the resolvers returned for the playlist, and each of them ends with
  the language \<open>merged_language\<close> gives: the resolver's own non-null language where
  it set one, the video's language where it did not and the video has one, and no
  \<^verbatim>\<open>language\<close> key where neither has one.
\<close>

theorem formats_language:
  assumes srt: "\<And>fs. set (sort_formats h fs) = set fs"
    and hls: "\<And>u v hs. list_all distinct_keys (host_m3u8_formats h u v hs)"
    and dash: "\<And>u v hs. list_all distinct_keys (host_mpd_formats h u v hs)"
    and mss: "\<And>u v hs. list_all distinct_keys (host_ism_formats h u v hs)"
    and ok: "fst (real_extract h url) = Inr r"
  shows "\<exists>url_id access_token api_url video_data api_id language playlists collected formats.
           match_id url = Inr url_id \<and>
           host_download_json h (api_url @ ''/videos/'' @ url_id) True
             [(''Authorization'', ''Bearer '' @ access_token)] video_query = Inr video_data \<and>
           py_get video_data ''id'' = Inr api_id \<and>
           py_get video_data ''language'' = Inr language \<and>
           ebind (py_getitem video_data ''playbackUrls'') py_iter = Inr playlists \<and>
           fst (collect_formats h (py_or api_id (PStr url_id))
                  [(''Authorization'', ''Bearer '' @ access_token)] playlists) = Inr collected \<and>
           formats = sort_formats h
                       (map (\<lambda>f. merge_dicts [f, [(PStr ''language'', language)]]) collected) \<and>
           dict_get r (PStr ''formats'') = Some (PList (map PDict formats)) \<and>
           list_all
             (\<lambda>g. \<exists>f \<in> set collected.
                    g = merge_dicts [f, [(PStr ''language'', language)]] \<and>
                    dict_get g (PStr ''language'') =
                      merged_language (dict_get f (PStr ''language'')) language)
             formats"
proof -
  from ok obtain url_id access_token api_url video_data where
    m: "match_id url = Inr url_id"
    and j: "host_download_json h (api_url @ ''/videos/'' @ url_id) True
             [(''Authorization'', ''Bearer '' @ access_token)] video_query = Inr video_data"
    and t: "fst (real_extract_tail h url_id api_url
               [(''Authorization'', ''Bearer '' @ access_token)] video_data) = Inr r"
    unfolding real_extract_Inr_iff by blast
  from t obtain api_id language title description thumbnails subs created formats where
    i: "py_get video_data ''id'' = Inr api_id"
    and l: "py_get video_data ''language'' = Inr language"
    and f: "fst (formats_of h video_data (py_or api_id (PStr url_id))
                 [(''Authorization'', ''Bearer '' @ access_token)] language) = Inr formats"
    and s: "fst (extract_all_subtitles h api_url (py_or api_id (PStr url_id))
                 [(''Authorization'', ''Bearer '' @ access_token)]) = Inr subs"
    and r: "r = info_dict h video_data (py_or api_id (PStr url_id)) title description thumbnails
                  subs created formats"
    unfolding real_extract_tail_Inr_iff by blast
  from f obtain playlists collected where
    p: "ebind (py_getitem video_data ''playbackUrls'') py_iter = Inr playlists"
    and c: "fst (collect_formats h (py_or api_id (PStr url_id))
                   [(''Authorization'', ''Bearer '' @ access_token)] playlists) = Inr collected"
    and fm: "formats = sort_formats h
                (map (\<lambda>f. merge_dicts [f, [(PStr ''language'', language)]]) collected)"
    unfolding formats_of_Inr_iff by blast
  have dk: "list_all distinct_keys collected"
    by (rule collect_formats_distinct [OF hls dash mss c])
  have each: "list_all
             (\<lambda>g. \<exists>f \<in> set collected.
                    g = merge_dicts [f, [(PStr ''language'', language)]] \<and>
                    dict_get g (PStr ''language'') =
                      merged_language (dict_get f (PStr ''language'')) language)
             formats"
    unfolding fm list_all_iff srt
    using dk by (auto simp: list_all_iff merge_dicts_language)
  have "dict_get r (PStr ''formats'') = Some (PList (map PDict formats))"
    unfolding r by (rule info_dict_formats [OF extract_all_subtitles_shape [OF s]])
  with m j i l p c fm each show ?thesis
    by blast
qed

theorem formats_language_witness:
  "\<exists>r url_id access_token api_url video_data api_id language playlists collected formats.
     fst (real_extract (sample_host [] sample_page sample_video sample_tracks) sample_url) = Inr r \<and>
     match_id sample_url = Inr url_id \<and>
     host_download_json (sample_host [] sample_page sample_video sample_tracks)
       (api_url @ ''/videos/'' @ url_id) True
       [(''Authorization'', ''Bearer '' @ access_token)] video_query = Inr video_data \<and>
     py_get video_data ''id'' = Inr api_id \<and>
     py_get video_data ''language'' = Inr language \<and>
     ebind (py_getitem video_data ''playbackUrls'') py_iter = Inr playlists \<and>
     fst (collect_formats (sample_host [] sample_page sample_video sample_tracks)
            (py_or api_id (PStr url_id))
            [(''Authorization'', ''Bearer '' @ access_token)] playlists) = Inr collected \<and>
     formats = sort_formats (sample_host [] sample_page sample_video sample_tracks)
                 (map (\<lambda>f. merge_dicts [f, [(PStr ''language'', language)]]) collected) \<and>
     dict_get r (PStr ''formats'') = Some (PList (map PDict formats)) \<and>
     list_all
       (\<lambda>g. \<exists>f \<in> set collected.
              g = merge_dicts [f, [(PStr ''language'', language)]] \<and>
              dict_get g (PStr ''language'') =
                merged_language (dict_get f (PStr ''language'')) language)
       formats"
proof -
  have srt: "\<And>fs. set (sort_formats (sample_host [] sample_page sample_video sample_tracks) fs) = set fs"
    by (simp add: sample_host_def)
  have hls: "\<And>u v hs. list_all distinct_keys
               (host_m3u8_formats (sample_host [] sample_page sample_video sample_tracks) u v hs)"
    by (simp add: sample_host_def sample_format_def)
  have dash: "\<And>u v hs. list_all distinct_keys
               (host_mpd_formats (sample_host [] sample_page sample_video sample_tracks) u v hs)"
    by (simp add: sample_host_def sample_format_def)
  have mss: "\<And>u v hs. list_all distinct_keys
               (host_ism_formats (sample_host [] sample_page sample_video sample_tracks) u v hs)"
    by (simp add: sample_host_def sample_format_def)
  obtain r where
    e: "fst (real_extract (sample_host [] sample_page sample_video sample_tracks) sample_url) = Inr r"
    by (simp add: sample_extraction)
  from formats_language [OF srt hls dash mss e] e show ?thesis
    by blast
qed

text \<open>
  The claim as stated fails where a resolver has set a language: the video metadata of
  the sample says \<^verbatim>\<open>en\<close>, the DASH resolver of this host returns a format with
  \<^verbatim>\<open>fr\<close>, and the entry of the final list carries \<^verbatim>\<open>fr\<close>.
\<close>

theorem resolver_language_counterexample:
  "host_download_json fr_host
     ''https://api.test/api/videos/6e51d928-4f46-4f1c-b141-369925e37b62'' True
     [(''Authorization'', ''Bearer t0k'')] video_query = Inr sample_video \<and>
   py_get sample_video ''language'' = Inr (PStr ''en'') \<and>
   fst (real_extract fr_host sample_url) =
     Inr [(PStr ''id'', PStr ''6e51d928-4f46-4f1c-b141-369925e37b62''),
          (PStr ''title'', PStr ''Town hall''),
          (PStr ''description'', PNone),
          (PStr ''uploader'', PNone),
          (PStr ''uploader_id'', PNone),
          (PStr ''thumbnails'',
             PList [PDict [(PStr ''id'', PStr ''small''),
                           (PStr ''url'', PStr ''https://img.test/t/MTI4MHg3MjAuanBn''),
                           (PStr ''width'', PInt 1280),
                           (PStr ''height'', PInt 720)]]),
          (PStr ''timestamp'', PNone),
          (PStr ''duration'', PNone),
          (PStr ''webpage_url'',
             PStr ''https://web.microsoftstream.com/video/6e51d928-4f46-4f1c-b141-369925e37b62''),
          (PStr ''view_count'', PNone),
          (PStr ''like_count'', PNone),
          (PStr ''comment_count'', PNone),
          (PStr ''formats'',
             PList [PDict [(PStr ''format_id'', PStr ''dash-fr''),
                           (PStr ''url'', PStr ''https://cdn.test/b.mpd''),
                           (PStr ''language'', PStr ''fr'')]])]"
  by code_simp

section \<open>Thumbnails\<close>

lemma a2b_base64_error: "a2b_base64 s q l p out = Inl e \<Longrightarrow> e = BinasciiError"
  by (induction s q l p out rule: a2b_base64.induct) (auto split: if_splits option.splits)

lemma b64decode_error: "b64decode s = Inl e \<Longrightarrow> e = ValueError \<or> e = BinasciiError"
  by (auto simp: b64decode_def dest: a2b_base64_error split: if_splits)

lemma ebind_Inl_iff: "ebind m f = Inl e \<longleftrightarrow> m = Inl e \<or> (\<exists>x. m = Inr x \<and> f x = Inl e)"
  by (cases m) (simp_all add: ebind_def)

lemma thumbnail_error:
  "thumbnail h video_data thumbnail_id = Inl e \<Longrightarrow> e = ValueError \<or> e = BinasciiError"
  by (auto simp: thumbnail_def Let_def ebind_Inl_iff dest: b64decode_error
      split: if_splits pyval.splits)

lemma thumbnails_loop_error:
  "thumbnails_loop h video_data ids = Inl e \<Longrightarrow> e = ValueError \<or> e = BinasciiError"
  by (induction ids) (auto simp: ebind_Inl_iff dest: thumbnail_error)

lemma thumbnails_loop_fails:
  "thumbnail_id \<in> set ids \<Longrightarrow> thumbnail h video_data thumbnail_id = Inl e \<Longrightarrow>
     \<exists>e'. thumbnails_loop h video_data ids = Inl e'"
proof (induction ids)
  case Nil
  then show ?case by simp
next
  case (Cons i ids)
  show ?case
  proof (cases "thumbnail h video_data i")
    case (Inl e0)
    then show ?thesis by (simp add: ebind_simps)
  next
    case (Inr t)
    with Cons.prems have "thumbnail_id \<in> set ids" by auto
    from Cons.IH [OF this Cons.prems(2)] obtain e' where
      "thumbnails_loop h video_data ids = Inl e'" by blast
    with Inr show ?thesis by (simp add: ebind_simps)
  qed
qed

lemma try_get_str_dict:
  "try_get video_data [[k1, k2, k3]] is_str = PStr u \<Longrightarrow> \<exists>d. video_data = PDict d"
  by (cases video_data) (auto split: sum.splits)

lemma real_extract_tail_thumbnails_fail:
  assumes "thumbnails_of h (PDict d) = Inl e"
  shows "fst (real_extract_tail h url_id api_url headers (PDict d)) = Inl e"
  using assms by (simp add: real_extract_tail_def bind_lift Let_def)

lemma thumbnail_decoded:
  assumes "try_get video_data [[''posterImage'', thumbnail_id, ''url'']] is_str = PStr u"
    and "u \<noteq> []"
  shows "thumbnail h video_data thumbnail_id =
           ebind (b64decode (pad4 (url_basename h u))) (\<lambda>decoded.
             Inr (Some (PDict (dict_update [(PStr ''id'', PStr thumbnail_id), (PStr ''url'', PStr u)]
                                 (parse_resolution h (str_bytes decoded))))))"
  using assms by (simp add: thumbnail_def Let_def)

text \<open>
  Claim C2, as amended. For a size label whose \<^verbatim>\<open>posterImage[label].url\<close> is a
  non-empty string: when the final path segment of the URL, padded with \<^verbatim>\<open>=\<close> to a
  multiple of four, base64-decodes, the thumbnail entry is \<^verbatim>\<open>{id, url}\<close> updated
  with what \<^verbatim>\<open>parse_resolution\<close> finds in \<^verbatim>\<open>str()\<close> of the decoded bytes
  (the text \<^verbatim>\<open>b'...'\<close>), so it has width 1280 and height 720 when that is what
  \<^verbatim>\<open>parse_resolution\<close> reads there; when the segment does not decode,
  \<^verbatim>\<open>b64decode\<close> raises (ValueError or binascii.Error), nothing catches it, and the
  extraction aborts with such an error.
\<close>

theorem thumbnail_resolution:
  assumes "try_get video_data [[''posterImage'', thumbnail_id, ''url'']] is_str = PStr u"
    and "u \<noteq> []"
  shows "(\<forall>decoded. b64decode (pad4 (url_basename h u)) = Inr decoded \<longrightarrow>
            thumbnail h video_data thumbnail_id =
              Inr (Some (PDict (dict_update
                     [(PStr ''id'', PStr thumbnail_id), (PStr ''url'', PStr u)]
                     (parse_resolution h (str_bytes decoded)))))) \<and>
         (\<forall>decoded w ht. b64decode (pad4 (url_basename h u)) = Inr decoded \<longrightarrow>
            parse_resolution h (str_bytes decoded) =
              [(PStr ''width'', PInt w), (PStr ''height'', PInt ht)] \<longrightarrow>
            thumbnail h video_data thumbnail_id =
              Inr (Some (PDict [(PStr ''id'', PStr thumbnail_id), (PStr ''url'', PStr u),
                                (PStr ''width'', PInt w), (PStr ''height'', PInt ht)]))) \<and>
         (\<forall>e. b64decode (pad4 (url_basename h u)) = Inl e \<longrightarrow>
            thumbnail h video_data thumbnail_id = Inl e \<and>
            (thumbnail_id \<in> set thumbnail_ids \<longrightarrow>
               (\<forall>url_id api_url headers. \<exists>e'.
                  fst (real_extract_tail h url_id api_url headers video_data) = Inl e' \<and>
                  (e' = ValueError \<or> e' = BinasciiError))))"
proof -
  note t = thumbnail_decoded [OF assms, of h]
  have a: "thumbnail h video_data thumbnail_id =
             Inr (Some (PDict (dict_update
                    [(PStr ''id'', PStr thumbnail_id), (PStr ''url'', PStr u)]
                    (parse_resolution h (str_bytes decoded)))))"
    if "b64decode (pad4 (url_basename h u)) = Inr decoded" for decoded
    using t that by (simp add: ebind_simps)
  have b: "thumbnail h video_data thumbnail_id =
             Inr (Some (PDict [(PStr ''id'', PStr thumbnail_id), (PStr ''url'', PStr u),
                               (PStr ''width'', PInt w), (PStr ''height'', PInt ht)]))"
    if "b64decode (pad4 (url_basename h u)) = Inr decoded"
      and "parse_resolution h (str_bytes decoded) =
             [(PStr ''width'', PInt w), (PStr ''height'', PInt ht)]" for decoded w ht
    using a [OF that(1)] that(2) by simp
  have c: "thumbnail h video_data thumbnail_id = Inl e"
    if "b64decode (pad4 (url_basename h u)) = Inl e" for e
    using t that by (simp add: ebind_simps)
  have d: "\<exists>e'. fst (real_extract_tail h url_id api_url headers video_data) = Inl e' \<and>
                (e' = ValueError \<or> e' = BinasciiError)"
    if "b64decode (pad4 (url_basename h u)) = Inl e" and "thumbnail_id \<in> set thumbnail_ids"
    for e url_id api_url headers
  proof -
    from try_get_str_dict [OF assms(1)] obtain dd where dd: "video_data = PDict dd" by blast
    from thumbnails_loop_fails [OF that(2) c [OF that(1)]] obtain e' where
      l: "thumbnails_loop h video_data thumbnail_ids = Inl e'"
      by blast
    then have e': "thumbnails_of h video_data = Inl e'"
      by (simp only: thumbnails_of_def)
    from l have "e' = ValueError \<or> e' = BinasciiError"
      by (rule thumbnails_loop_error)
    with real_extract_tail_thumbnails_fail [of h dd e'] e' dd show ?thesis
      by blast
  qed
  from a b c d show ?thesis
    by blast
qed


theorem thumbnail_resolution_witness:
  "thumbnail (sample_host [] sample_page sample_video sample_tracks) sample_video ''small'' =
     Inr (Some (PDict [(PStr ''id'', PStr ''small''),
                       (PStr ''url'', PStr ''https://img.test/t/MTI4MHg3MjAuanBn''),
                       (PStr ''width'', PInt 1280), (PStr ''height'', PInt 720)])) \<and>
   thumbnail (sample_host [] sample_page sample_video sample_tracks) bad_thumb_video ''small'' =
     Inl BinasciiError \<and>
   (\<exists>e'. fst (real_extract_tail (sample_host [] sample_page sample_video sample_tracks)
                ''6e51d928-4f46-4f1c-b141-369925e37b62'' ''https://api.test/api'' []
                bad_thumb_video) = Inl e' \<and>
         (e' = ValueError \<or> e' = BinasciiError))"
proof -
  have g: "try_get sample_video [[''posterImage'', ''small'', ''url'']] is_str =
             PStr ''https://img.test/t/MTI4MHg3MjAuanBn''"
    by code_simp
  have n: "''https://img.test/t/MTI4MHg3MjAuanBn'' \<noteq> []"
    by simp
  have dec: "b64decode (pad4 (url_basename (sample_host [] sample_page sample_video sample_tracks)
               ''https://img.test/t/MTI4MHg3MjAuanBn'')) = Inr ''1280x720.jpg''"
    by code_simp
  have res: "parse_resolution (sample_host [] sample_page sample_video sample_tracks)
               (str_bytes ''1280x720.jpg'') =
             [(PStr ''width'', PInt 1280), (PStr ''height'', PInt 720)]"
    by code_simp
  have g': "try_get bad_thumb_video [[''posterImage'', ''small'', ''url'']] is_str =
              PStr ''https://img.test/t/poster.jpg''"
    by code_simp
  have n': "''https://img.test/t/poster.jpg'' \<noteq> []"
    by simp
  have bad: "b64decode (pad4 (url_basename (sample_host [] sample_page sample_video sample_tracks)
               ''https://img.test/t/poster.jpg'')) = Inl BinasciiError"
    by code_simp
  have s: "''small'' \<in> set thumbnail_ids"
    by (simp add: thumbnail_ids_def)
  from thumbnail_resolution [OF g n, of "sample_host [] sample_page sample_video sample_tracks"]
    dec res
  have 1: "thumbnail (sample_host [] sample_page sample_video sample_tracks) sample_video ''small'' =
     Inr (Some (PDict [(PStr ''id'', PStr ''small''),
                       (PStr ''url'', PStr ''https://img.test/t/MTI4MHg3MjAuanBn''),
                       (PStr ''width'', PInt 1280), (PStr ''height'', PInt 720)]))"
    by blast
  from thumbnail_resolution [OF g' n', of "sample_host [] sample_page sample_video sample_tracks"]
    bad s
  have 2: "thumbnail (sample_host [] sample_page sample_video sample_tracks) bad_thumb_video ''small'' =
             Inl BinasciiError"
    and 3: "\<exists>e'. fst (real_extract_tail (sample_host [] sample_page sample_video sample_tracks)
                ''6e51d928-4f46-4f1c-b141-369925e37b62'' ''https://api.test/api'' []
                bad_thumb_video) = Inl e' \<and>
         (e' = ValueError \<or> e' = BinasciiError)"
    by blast+
  from 1 2 3 show ?thesis
    by blast
qed

text \<open>
  The claim as stated fails on the second half: the thumbnail URL
  \<^verbatim>\<open>https://img.test/t/poster.jpg\<close> has the final segment \<^verbatim>\<open>poster.jpg\<close>,
  which is not base64 (nine characters of the alphabet), and the extraction aborts
  right after the metadata request.
\<close>

theorem undecodable_thumbnail_counterexample:
  "real_extract (sample_host [] sample_page bad_thumb_video sample_tracks) sample_url =
     (Inl BinasciiError,
      [FetchWebpage sample_url,
       FetchJson ''https://api.test/api/videos/6e51d928-4f46-4f1c-b141-369925e37b62'' True
         [(''Authorization'', ''Bearer t0k'')] video_query])"
  by code_simp

section \<open>Absent fields of the video metadata\<close>

subsection \<open>Reading a record with a field removed\<close>

lemma dict_get_dict_del:
  "dict_get (dict_del d k) k' = (if key_eq k k' then None else dict_get d k')"
proof (induction d)
  case Nil
  then show ?case by (simp add: dict_del_def)
next
  case (Cons p d)
  obtain k0 w where p: "p = (k0, w)" by (cases p)
  have ih: "dict_get (filter (\<lambda>(k', v). \<not> key_eq k' k) d) k' =
              (if key_eq k k' then None else dict_get d k')"
    using Cons by (simp add: dict_del_def)
  show ?case
  proof (cases "key_eq k0 k")
    case True
    then have "key_eq k0 k' = key_eq k k'"
      by (blast intro: key_eq_trans key_eq_sym)
    with True p ih show ?thesis by (simp add: dict_del_def)
  next
    case False
    have "key_eq k0 k' \<Longrightarrow> \<not> key_eq k k'"
      using False by (blast intro: key_eq_trans key_eq_sym)
    with False p ih show ?thesis by (auto simp: dict_del_def)
  qed
qed

lemma key_eq_PStr: "key_eq a (PStr s) = (a = PStr s)"
  by (cases a) auto

lemma path_cases:
  obtains "p = []" | k where "p = [k]" | k k' ks where "p = k # k' # ks"
  by (cases p; cases "tl p") auto

lemma del_field_Nil: "del_field v [] = v"
  by (cases v) simp_all

lemma del_field_dict: "\<exists>d'. del_field (PDict d) p = PDict d'"
  by (cases p rule: path_cases) auto

lemma del_field_not_dict: "\<not> is_dict v \<Longrightarrow> del_field v p = v"
  by (cases v) (simp_all add: is_dict_def)

lemma dict_get_map_field:
  "dict_get (map (\<lambda>(key, w). if key = PStr k then (key, f w) else (key, w)) d) (PStr k') =
     (if k = k' then map_option f (dict_get d (PStr k')) else dict_get d (PStr k'))"
  by (induction d) (auto simp: key_eq_PStr)

lemma py_getitem_del_one:
  "py_getitem (del_field (PDict d) [k]) k' =
     (if k = k' then Inl (KeyError k') else py_getitem (PDict d) k')"
  by (simp add: dict_get_dict_del)

lemma py_getitem_del_deep:
  "py_getitem (del_field (PDict d) (k # k2 # ks)) k' =
     (if k = k'
      then (case py_getitem (PDict d) k' of Inl e \<Rightarrow> Inl e | Inr w \<Rightarrow> Inr (del_field w (k2 # ks)))
      else py_getitem (PDict d) k')"
  by (simp add: dict_get_map_field split: option.splits)

lemma py_getitem_del_other:
  "p \<noteq> [] \<Longrightarrow> hd p \<noteq> k' \<Longrightarrow> py_getitem (del_field (PDict d) p) k' = py_getitem (PDict d) k'"
  by (cases p rule: path_cases) (auto simp: dict_get_dict_del dict_get_map_field)

lemma py_getitem_del_ok:
  "py_getitem (PDict d) k = Inr x \<Longrightarrow> p \<noteq> [k] \<Longrightarrow>
     \<exists>x'. py_getitem (del_field (PDict d) p) k = Inr x'"
  by (cases p rule: path_cases)
    (auto simp: dict_get_dict_del dict_get_map_field split: option.splits)

lemma py_get_del_one:
  "py_get (del_field (PDict d) [k]) k' = (if k = k' then Inr PNone else py_get (PDict d) k')"
  by (simp add: dict_get_dict_del)

lemma py_get_del_other:
  "p \<noteq> [] \<Longrightarrow> hd p \<noteq> k' \<Longrightarrow> py_get (del_field (PDict d) p) k' = py_get (PDict d) k'"
  by (cases p rule: path_cases) (auto simp: dict_get_dict_del dict_get_map_field)

lemma py_get_del_total: "py_get (del_field (PDict d) p) k = Inr (track_field (del_field (PDict d) p) k)"
proof -
  from del_field_dict [of d p] obtain d' where "del_field (PDict d) p = PDict d'"
    by blast
  then show ?thesis by (simp add: track_field_def)
qed

text \<open>A read through the removed field finds nothing.\<close>

lemma path_get_through:
  "path_get (del_field v (q @ [k])) (q @ k # ks) = None"
proof (induction q arbitrary: v)
  case Nil
  show ?case
    by (cases v) (simp_all add: dict_get_dict_del)
next
  case (Cons a q)
  show ?case
  proof (cases v)
    case (PDict d)
    obtain b r where qk: "q @ [k] = b # r" by (cases q) auto
    show ?thesis
    proof (cases "py_getitem (PDict d) a")
      case (Inl e)
      then show ?thesis
        using PDict qk by (simp add: py_getitem_del_deep del: py_getitem.simps del_field.simps)
    next
      case (Inr w)
      have "path_get (del_field w (q @ [k])) (q @ k # ks) = None"
        by (rule Cons.IH)
      with Inr show ?thesis
        using PDict qk by (simp add: py_getitem_del_deep del: py_getitem.simps del_field.simps)
    qed
  qed simp_all
qed

text \<open>A read that leaves the path of the removed field finds what it found.\<close>

lemma path_get_aside:
  "a \<noteq> b \<Longrightarrow> path_get (del_field v (q @ a # p)) (q @ b # ks) = path_get v (q @ b # ks)"
proof (induction q arbitrary: v)
  case Nil
  show ?case
  proof (cases v)
    case (PDict d)
    with Nil show ?thesis
      using py_getitem_del_other [of "a # p" b d]
      by (simp del: py_getitem.simps del_field.simps)
  qed simp_all
next
  case (Cons c q)
  show ?case
  proof (cases v)
    case (PDict d)
    obtain e r where qk: "q @ a # p = e # r" by (cases q) auto
    show ?thesis
    proof (cases "py_getitem (PDict d) c")
      case (Inl err)
      then show ?thesis
        using PDict qk by (simp add: py_getitem_del_deep del: py_getitem.simps del_field.simps)
    next
      case (Inr w)
      have "path_get (del_field w (q @ a # p)) (q @ b # ks) = path_get w (q @ b # ks)"
        by (rule Cons.IH [OF Cons.prems])
      with Inr show ?thesis
        using PDict qk by (simp add: py_getitem_del_deep del: py_getitem.simps del_field.simps)
    qed
  qed simp_all
qed

text \<open>Any read finds nothing, or what it found with something removed inside.\<close>

lemma path_get_del_field:
  "path_get (del_field v p) ks = None \<or>
   (\<exists>w rest. path_get v ks = Some w \<and> path_get (del_field v p) ks = Some (del_field w rest))"
proof (induction ks arbitrary: v p)
  case Nil
  have "path_get v [] = Some v \<and> path_get (del_field v p) [] = Some (del_field v p)"
    by simp
  then show ?case by blast
next
  case (Cons k ks)
  have same: ?case if "path_get (del_field v p) (k # ks) = path_get v (k # ks)"
  proof (cases "path_get v (k # ks)")
    case None
    with that show ?thesis by simp
  next
    case (Some w)
    with that have "path_get v (k # ks) = Some w
        \<and> path_get (del_field v p) (k # ks) = Some (del_field w [])"
      by (simp add: del_field_Nil)
    then show ?thesis by blast
  qed
  show ?case
  proof (cases "is_dict v")
    case False
    then show ?thesis
      by (intro same) (simp add: del_field_not_dict)
  next
    case True
    then obtain d where PDict: "v = PDict d"
      by (cases v) (simp_all add: is_dict_def)
    show ?thesis
    proof (cases p rule: path_cases)
      case 1
      then show ?thesis by (intro same) (simp add: del_field_Nil)
    next
      case (2 k0)
      show ?thesis
      proof (cases "k0 = k")
        case True
        then show ?thesis
          using PDict 2 by (simp add: py_getitem_del_one del: py_getitem.simps del_field.simps)
      next
        case False
        then show ?thesis
          using PDict 2
          by (intro same) (simp add: py_getitem_del_one del: py_getitem.simps del_field.simps)
      qed
    next
      case (3 k0 k1 r)
      show ?thesis
      proof (cases "k0 = k")
        case True
        show ?thesis
        proof (cases "py_getitem (PDict d) k")
          case (Inl e)
          then show ?thesis
            using PDict 3 True
            by (simp add: py_getitem_del_deep del: py_getitem.simps del_field.simps)
        next
          case (Inr w)
          from Cons.IH [of w "k1 # r"] Inr show ?thesis
            using PDict 3 True
            by (simp add: py_getitem_del_deep del: py_getitem.simps del_field.simps)
        qed
      next
        case False
        then show ?thesis
          using PDict 3
          by (intro same) (simp add: py_getitem_del_deep del: py_getitem.simps del_field.simps)
      qed
    qed
  qed
qed

lemma path_get_absent2:
  "p = [a] \<or> p = [a, b] \<Longrightarrow> path_get (del_field v p) [a, b] = None"
  using path_get_through [of v "[]" a "[b]"] path_get_through [of v "[a]" b "[]"]
  by (auto simp del: path_get.simps del_field.simps)

lemma path_get_absent3:
  "p = [a] \<or> p = [a, b] \<or> p = [a, b, c] \<Longrightarrow> path_get (del_field v p) [a, b, c] = None"
  using path_get_through [of v "[]" a "[b, c]"] path_get_through [of v "[a]" b "[c]"]
    path_get_through [of v "[a, b]" c "[]"]
  by (auto simp del: path_get.simps del_field.simps)

lemma path_get_sibling:
  "b \<noteq> b' \<Longrightarrow> path_get (del_field v (a # b # rest)) (a # b' # ks) = path_get v (a # b' # ks)"
  using path_get_aside [of b b' v "[a]" rest ks]
  by (simp del: path_get.simps del_field.simps)

subsection \<open>Thumbnails of a record with a field removed\<close>

lemma try_get_str_del_field:
  "try_get (del_field v p) [g] is_str = try_get v [g] is_str
   \<or> try_get (del_field v p) [g] is_str = PNone"
proof (cases "path_get (del_field v p) g")
  case None
  then show ?thesis by simp
next
  case (Some x)
  with path_get_del_field [of v p g] obtain w rest where
    w: "path_get v g = Some w" and x: "x = del_field w rest"
    by auto
  show ?thesis
  proof (cases "is_dict w")
    case True
    then obtain d where "w = PDict d"
      by (cases w) (simp_all add: is_dict_def)
    with del_field_dict [of d rest] obtain d' where "del_field w rest = PDict d'"
      by auto
    with Some x show ?thesis by (simp add: is_str_def)
  next
    case False
    with Some w x show ?thesis by (simp add: del_field_not_dict)
  qed
qed

lemma thumbnail_del_field:
  "thumbnail h (del_field v p) l = thumbnail h v l \<or> thumbnail h (del_field v p) l = Inr None"
  using try_get_str_del_field [of v p "[''posterImage'', l, ''url'']"]
  by (auto simp: thumbnail_def simp del: try_get.simps)

lemma thumbnails_loop_del_field:
  "thumbnails_loop h v ids = Inr ts \<Longrightarrow> \<exists>ts'. thumbnails_loop h (del_field v p) ids = Inr ts'"
proof (induction ids arbitrary: ts)
  case Nil
  show ?case by simp
next
  case (Cons l ids)
  from Cons.prems obtain t ts0 where
    t: "thumbnail h v l = Inr t" and r: "thumbnails_loop h v ids = Inr ts0"
    by (auto simp: ebind_Inr_iff)
  from Cons.IH [OF r] obtain ts1 where "thumbnails_loop h (del_field v p) ids = Inr ts1"
    by blast
  moreover from thumbnail_del_field [of h v p l] t obtain t' where
    "thumbnail h (del_field v p) l = Inr t'"
    by auto
  ultimately show ?case by (simp add: ebind_simps)
qed

lemma thumbnail_absent:
  assumes "p = [''posterImage''] \<or> p = [''posterImage'', l] \<or> p = [''posterImage'', l, ''url'']"
  shows "thumbnail h (del_field v p) l = Inr None"
proof -
  from assms have "path_get (del_field v p) [''posterImage'', l, ''url''] = None"
    by (rule path_get_absent3)
  then show ?thesis
    by (simp add: thumbnail_def del: path_get.simps)
qed

lemma try_get_sibling:
  "b \<noteq> b' \<Longrightarrow>
     try_get (del_field v (a # b # rest)) [a # b' # ks] e = try_get v [a # b' # ks] e"
  by (simp add: path_get_sibling del: path_get.simps del_field.simps split: option.splits)

lemma thumbnail_sibling:
  "l' \<noteq> l \<Longrightarrow> thumbnail h (del_field v (''posterImage'' # l # rest)) l' = thumbnail h v l'"
  by (simp add: thumbnail_def try_get_sibling del: try_get.simps del_field.simps)

lemma ebind_Inr_right: "ebind m Inr = m"
  by (cases m) (simp_all add: ebind_simps)

lemma thumbnails_loop_none: "thumbnails_loop h (del_field v [''posterImage'']) ids = Inr []"
proof -
  have "thumbnail h (del_field v [''posterImage'']) l = Inr None" for l
    by (rule thumbnail_absent) simp
  then show ?thesis
    by (induction ids) (simp_all add: ebind_simps del: del_field.simps)
qed

lemma thumbnails_loop_without:
  assumes "rest = [] \<or> rest = [''url'']"
  shows "thumbnails_loop h (del_field v (''posterImage'' # l # rest)) ids =
           thumbnails_loop h v (removeAll l ids)"
proof (induction ids)
  case Nil
  show ?case by simp
next
  case (Cons a ids)
  show ?case
  proof (cases "a = l")
    case True
    have "thumbnail h (del_field v (''posterImage'' # l # rest)) l = Inr None"
      using assms by (intro thumbnail_absent) auto
    with True Cons show ?thesis
      by (simp add: ebind_simps ebind_Inr_right del: del_field.simps)
  next
    case False
    with Cons thumbnail_sibling [of a l h v rest] show ?thesis
      by (simp del: del_field.simps)
  qed
qed

subsection \<open>The format loop and the fields of a playlist entry\<close>

lemma playlist_formats_ok:
  "fst (playlist_formats h v hs p) = Inr fs \<Longrightarrow> \<exists>fs'. fst (playlist_formats h v' hs' p) = Inr fs'"
  by (auto simp: playlist_formats_def bind_lift extract_m3u8_formats_def extract_mpd_formats_def
      extract_ism_formats_def ret_def split: sum.splits if_splits)

lemma collect_formats_ok:
  "fst (collect_formats h v hs ps) = Inr fs \<Longrightarrow> \<exists>fs'. fst (collect_formats h v' hs' ps) = Inr fs'"
proof (induction ps arbitrary: fs)
  case Nil
  then show ?case by (simp add: fst_ret)
next
  case (Cons p ps)
  from Cons.prems obtain a b where
    a: "fst (playlist_formats h v hs p) = Inr a"
    and b: "fst (collect_formats h v hs ps) = Inr b"
    by (auto simp: fst_bind_Inr_iff)
  from playlist_formats_ok [OF a] obtain a' where "fst (playlist_formats h v' hs' p) = Inr a'"
    by blast
  moreover from Cons.IH [OF b] obtain b' where "fst (collect_formats h v' hs' ps) = Inr b'"
    by blast
  ultimately show ?case
    by (simp add: fst_bind_Inr_iff fst_ret)
qed

lemma formats_of_ok:
  assumes "fst (formats_of h vd v hs l) = Inr fs"
    and "py_getitem vd' ''playbackUrls'' = py_getitem vd ''playbackUrls''"
  shows "\<exists>fs'. fst (formats_of h vd' v' hs l') = Inr fs'"
proof -
  from assms(1) obtain ps c where
    p: "ebind (py_getitem vd ''playbackUrls'') py_iter = Inr ps"
    and c: "fst (collect_formats h v hs ps) = Inr c"
    by (auto simp: formats_of_def fst_bind_Inr_iff fst_lift)
  from collect_formats_ok [OF c] obtain c' where "fst (collect_formats h v' hs ps) = Inr c'"
    by blast
  with p assms(2) show ?thesis
    by (simp add: formats_of_def fst_bind_Inr_iff fst_lift fst_ret)
qed

lemma formats_of_same:
  "py_getitem vd' ''playbackUrls'' = py_getitem vd ''playbackUrls'' \<Longrightarrow>
     formats_of h vd' v hs l = formats_of h vd v hs l"
  by (simp add: formats_of_def)

lemma playlist_formats_entry_ok:
  "fst (playlist_formats h v hs playlist) = Inr fs \<Longrightarrow> entry_ok playlist"
  by (auto simp: playlist_formats_def entry_ok_def supported_mime_def bind_lift
      split: sum.splits if_splits)

lemma collect_formats_entry_ok:
  "fst (collect_formats h v hs ps) = Inr fs \<Longrightarrow> list_all entry_ok ps"
proof (induction ps arbitrary: fs)
  case Nil
  show ?case by simp
next
  case (Cons p ps)
  from Cons.prems obtain a b where
    a: "fst (playlist_formats h v hs p) = Inr a"
    and b: "fst (collect_formats h v hs ps) = Inr b"
    by (auto simp: fst_bind_Inr_iff)
  from playlist_formats_entry_ok [OF a] Cons.IH [OF b] show ?case
    by simp
qed

lemma playlist_formats_del:
  assumes "f \<noteq> ''mimeType''"
    and "f = ''playbackUrl'' \<longrightarrow> \<not> supported_mime (track_field (PDict e) ''mimeType'')"
  shows "playlist_formats h v hs (PDict (dict_del e (PStr f))) = playlist_formats h v hs (PDict e)"
  using assms
  by (auto simp: playlist_formats_def dict_get_dict_del supported_mime_def track_field_def
      bind_lift split: option.splits)

lemma collect_formats_entry:
  "playlist_formats h v hs x = playlist_formats h v hs y \<Longrightarrow>
     collect_formats h v hs (pre @ x # post) = collect_formats h v hs (pre @ y # post)"
  by (induction pre) simp_all

subsection \<open>The result\<close>

lemma info_dict_early:
  "dict_get (info_dict h vd vid title description thumbnails subs created formats) (PStr ''id'')
     = Some vid"
  "dict_get (info_dict h vd vid title description thumbnails subs created formats)
     (PStr ''description'') = Some description"
  "dict_get (info_dict h vd vid title description thumbnails subs created formats)
     (PStr ''uploader'') = Some (try_get vd [[''creator'', ''name'']] is_str)"
  "dict_get (info_dict h vd vid title description thumbnails subs created formats)
     (PStr ''uploader_id'') =
       Some (try_get vd [[''creator'', ''mail''], [''creator'', ''id'']] is_str)"
  "dict_get (info_dict h vd vid title description thumbnails subs created formats)
     (PStr ''thumbnails'') = Some (PList thumbnails)"
  by (simp_all add: info_dict_def del: try_get.simps)

lemma info_dict_late:
  assumes "subs = [] \<or> (\<exists>a b. subs = [(PStr ''subtitles'', a), (PStr ''automatic_captions'', b)])"
  shows "dict_get (info_dict h vd vid title description thumbnails subs created formats)
           (PStr ''timestamp'') = Some (parse_iso8601 h created)"
    and "dict_get (info_dict h vd vid title description thumbnails subs created formats)
           (PStr ''duration'') =
             Some (parse_duration h (try_get vd [[''media'', ''duration'']] (\<lambda>v. True)))"
    and "dict_get (info_dict h vd vid title description thumbnails subs created formats)
           (PStr ''view_count'') = Some (try_get vd [[''metrics'', ''views'']] is_int)"
    and "dict_get (info_dict h vd vid title description thumbnails subs created formats)
           (PStr ''like_count'') = Some (try_get vd [[''metrics'', ''likes'']] is_int)"
    and "dict_get (info_dict h vd vid title description thumbnails subs created formats)
           (PStr ''comment_count'') = Some (try_get vd [[''metrics'', ''comments'']] is_int)"
    and "dict_get (info_dict h vd vid title description thumbnails subs created formats)
           (PStr ''formats'') = Some (PList (map PDict formats))"
  using assms by (auto simp: info_dict_def simp del: try_get.simps)

lemma try_get_absent2:
  "p = [a] \<or> p = [a, b] \<Longrightarrow> try_get (del_field v p) [[a, b]] e = PNone"
  by (simp add: path_get_absent2 del: path_get.simps del_field.simps)

lemma try_get_other:
  "b \<noteq> b' \<Longrightarrow>
     try_get (del_field v [a, b]) [[a, b], [a, b']] e = try_get v [[a, b']] e"
     "b \<noteq> b' \<Longrightarrow>
     try_get (del_field v [a, b']) [[a, b], [a, b']] e = try_get v [[a, b]] e"
  using path_get_sibling [of b b' v a "[]" "[]"] path_get_sibling [of b' b v a "[]" "[]"]
    path_get_absent2 [of "[a, b]" a b v] path_get_absent2 [of "[a, b']" a b' v]
  by (simp_all del: path_get.simps del_field.simps split: option.splits)

lemma try_get_absent_both:
  "try_get (del_field v [a]) [[a, b], [a, b']] e = PNone"
  using path_get_absent2 [of "[a]" a b v] path_get_absent2 [of "[a]" a b' v]
  by (simp del: path_get.simps del_field.simps)

text \<open>
  The rest of the extraction reads the record through its keys, and the playlist only
  in the format loop.
\<close>

lemma real_extract_tail_cong:
  assumes same: "\<And>k. k \<noteq> ''playbackUrls'' \<Longrightarrow> dict_get d' (PStr k) = dict_get d (PStr k)"
    and fm: "\<And>v l. formats_of h (PDict d') v hs l = formats_of h (PDict d) v hs l"
  shows "real_extract_tail h u a hs (PDict d') = real_extract_tail h u a hs (PDict d)"
proof -
  have g: "py_get (PDict d') k = py_get (PDict d) k" if "k \<noteq> ''playbackUrls''" for k
    using same [OF that] by simp
  have gi: "py_getitem (PDict d') k = py_getitem (PDict d) k" if "k \<noteq> ''playbackUrls''" for k
    using same [OF that] by simp
  have pg: "path_get (PDict d') (k # ks) = path_get (PDict d) (k # ks)"
    if "k \<noteq> ''playbackUrls''" for k ks
    using gi [OF that] by (simp del: py_getitem.simps)
  have tg: "try_get (PDict d') gs e = try_get (PDict d) gs e"
    if "list_all (\<lambda>g. g \<noteq> [] \<and> hd g \<noteq> ''playbackUrls'') gs" for gs e
    using that
  proof (induction gs)
    case Nil
    show ?case by simp
  next
    case (Cons g gs)
    then obtain k ks where "g = k # ks" and "k \<noteq> ''playbackUrls''"
      by (cases g) auto
    with Cons pg [of k ks] show ?case
      by (simp del: path_get.simps split: option.splits)
  qed
  have t: "thumbnail h (PDict d') l = thumbnail h (PDict d) l" for l
    by (simp add: thumbnail_def tg del: try_get.simps)
  have "thumbnails_loop h (PDict d') ids = thumbnails_loop h (PDict d) ids" for ids
    by (induction ids) (simp_all add: t)
  then have th: "thumbnails_of h (PDict d') = thumbnails_of h (PDict d)"
    by (simp add: thumbnails_of_def)
  have info: "info_dict h (PDict d') = info_dict h (PDict d)"
    by (intro ext) (simp add: info_dict_def tg del: try_get.simps)
  have 1: "py_get (PDict d') ''id'' = py_get (PDict d) ''id''" by (rule g) simp
  have 2: "py_get (PDict d') ''language'' = py_get (PDict d) ''language''" by (rule g) simp
  have 3: "py_get (PDict d') ''description'' = py_get (PDict d) ''description''" by (rule g) simp
  have 4: "py_get (PDict d') ''created'' = py_get (PDict d) ''created''" by (rule g) simp
  have 5: "py_getitem (PDict d') ''name'' = py_getitem (PDict d) ''name''" by (rule gi) simp
  show ?thesis
    unfolding real_extract_tail_def
    by (simp only: 1 2 3 4 5 th fm info)
qed

lemma sample_tail:
  "fst (real_extract_tail (sample_host [] sample_page sample_video sample_tracks)
          ''6e51d928-4f46-4f1c-b141-369925e37b62'' ''https://api.test/api''
          [(''Authorization'', ''Bearer t0k'')] (PDict sample_video_fields)) =
     Inr [(PStr ''id'', PStr ''6e51d928-4f46-4f1c-b141-369925e37b62''),
          (PStr ''title'', PStr ''Town hall''),
          (PStr ''description'', PNone),
          (PStr ''uploader'', PNone),
          (PStr ''uploader_id'', PNone),
          (PStr ''thumbnails'',
             PList [PDict [(PStr ''id'', PStr ''small''),
                           (PStr ''url'', PStr ''https://img.test/t/MTI4MHg3MjAuanBn''),
                           (PStr ''width'', PInt 1280),
                           (PStr ''height'', PInt 720)]]),
          (PStr ''timestamp'', PNone),
          (PStr ''duration'', PNone),
          (PStr ''webpage_url'',
             PStr ''https://web.microsoftstream.com/video/6e51d928-4f46-4f1c-b141-369925e37b62''),
          (PStr ''view_count'', PNone),
          (PStr ''like_count'', PNone),
          (PStr ''comment_count'', PNone),
          (PStr ''formats'',
             PList [PDict [(PStr ''format_id'', PStr ''dash-0''),
                           (PStr ''url'', PStr ''https://cdn.test/b.mpd''),
                           (PStr ''language'', PStr ''en'')]])]"
  by code_simp

text \<open>
  Claim C3, as amended. Four fields are read with a subscript, and every record on
  which the extraction succeeds has them: \<^verbatim>\<open>name\<close>, \<^verbatim>\<open>playbackUrls\<close>, the
  \<^verbatim>\<open>mimeType\<close> of every playlist entry and the \<^verbatim>\<open>playbackUrl\<close> of every entry
  whose type the loop resolves. The absence of any other field is not fatal:

  \<^item> from a record on which the extraction succeeds, the field at any key path \<open>p\<close>
    that is not \<^verbatim>\<open>name\<close> and does not start at \<^verbatim>\<open>playbackUrls\<close> can be removed
    and the extraction still succeeds (for a path that starts at \<^verbatim>\<open>id\<close>: provided the
    subtitle step succeeds for the identifier then used, which for \<^verbatim>\<open>id\<close> itself is
    the one of the URL), and the output of a field that is read is null or empty: the
    \<^verbatim>\<open>id\<close> of the URL; a null description, uploader, uploader id (with only one of
    \<^verbatim>\<open>creator.mail\<close> and \<^verbatim>\<open>creator.id\<close> absent, the other one) and counts; no
    thumbnail for the size label (none at all without \<^verbatim>\<open>posterImage\<close>); what the
    two parsers make of \<^verbatim>\<open>None\<close> as timestamp and duration; the formats tagged
    with the language \<^verbatim>\<open>None\<close>;
  \<^item> from a playlist entry any key \<open>f\<close> other than \<^verbatim>\<open>mimeType\<close>, and other than
    \<^verbatim>\<open>playbackUrl\<close> when the type is one the loop resolves, can be removed and the
    extraction does what it did.
\<close>

theorem absent_fields:
  assumes "fst (real_extract_tail h url_id api_url headers (PDict d)) = Inr r"
  shows
    "(dict_get d (PStr ''name'') \<noteq> None \<and>
      (\<exists>v playlists. dict_get d (PStr ''playbackUrls'') = Some v \<and> py_iter v = Inr playlists
          \<and> list_all entry_ok playlists)) \<and>
     (p \<noteq> [] \<and> p \<noteq> [''name''] \<and> hd p \<noteq> ''playbackUrls'' \<and>
      (hd p = ''id'' \<longrightarrow>
         (\<exists>s. fst (extract_all_subtitles h api_url
                     (py_or (track_field (del_field (PDict d) p) ''id'') (PStr url_id)) headers)
               = Inr s)) \<longrightarrow>
      (\<exists>r'. fst (real_extract_tail h url_id api_url headers (del_field (PDict d) p)) = Inr r' \<and>
         (p = [''id''] \<longrightarrow> dict_get r' (PStr ''id'') = Some (PStr url_id)) \<and>
         (p = [''description''] \<longrightarrow> dict_get r' (PStr ''description'') = Some PNone) \<and>
         (p = [''creator''] \<or> p = [''creator'', ''name''] \<longrightarrow>
            dict_get r' (PStr ''uploader'') = Some PNone) \<and>
         (p = [''creator''] \<longrightarrow> dict_get r' (PStr ''uploader_id'') = Some PNone) \<and>
         (p = [''creator'', ''mail''] \<longrightarrow>
            dict_get r' (PStr ''uploader_id'') =
              Some (try_get (PDict d) [[''creator'', ''id'']] is_str)) \<and>
         (p = [''creator'', ''id''] \<longrightarrow>
            dict_get r' (PStr ''uploader_id'') =
              Some (try_get (PDict d) [[''creator'', ''mail'']] is_str)) \<and>
         (p = [''posterImage''] \<longrightarrow> dict_get r' (PStr ''thumbnails'') = Some (PList [])) \<and>
         (p = [''posterImage'', l] \<or> p = [''posterImage'', l, ''url''] \<longrightarrow>
            (\<exists>ts. thumbnails_loop h (PDict d) (removeAll l thumbnail_ids) = Inr ts \<and>
                  dict_get r' (PStr ''thumbnails'') = Some (PList ts))) \<and>
         (p = [''created''] \<longrightarrow>
            dict_get r' (PStr ''timestamp'') = Some (parse_iso8601 h PNone)) \<and>
         (p = [''media''] \<or> p = [''media'', ''duration''] \<longrightarrow>
            dict_get r' (PStr ''duration'') = Some (parse_duration h PNone)) \<and>
         (p = [''metrics''] \<or> p = [''metrics'', ''views''] \<longrightarrow>
            dict_get r' (PStr ''view_count'') = Some PNone) \<and>
         (p = [''metrics''] \<or> p = [''metrics'', ''likes''] \<longrightarrow>
            dict_get r' (PStr ''like_count'') = Some PNone) \<and>
         (p = [''metrics''] \<or> p = [''metrics'', ''comments''] \<longrightarrow>
            dict_get r' (PStr ''comment_count'') = Some PNone) \<and>
         (p = [''language''] \<longrightarrow>
            (\<exists>fs. fst (formats_of h (PDict d)
                         (py_or (track_field (PDict d) ''id'') (PStr url_id)) headers PNone)
                     = Inr fs \<and>
                  dict_get r' (PStr ''formats'') = Some (PList (map PDict fs)))))) \<and>
     (dict_get d (PStr ''playbackUrls'') = Some (PList (pre @ PDict e # post)) \<and>
      f \<noteq> ''mimeType'' \<and>
      (f = ''playbackUrl'' \<longrightarrow> \<not> supported_mime (track_field (PDict e) ''mimeType'')) \<longrightarrow>
      real_extract_tail h url_id api_url headers
        (PDict (dict_set d (PStr ''playbackUrls'')
                  (PList (pre @ PDict (dict_del e (PStr f)) # post)))) =
      real_extract_tail h url_id api_url headers (PDict d))"
    (is "?M \<and> (?H1 \<longrightarrow> ?C1) \<and> (?H2 \<longrightarrow> ?C2)")
proof -
  let ?vd = "PDict d" and ?vd' = "del_field (PDict d) p"
  from assms obtain api_id language thumbnails formats title description subs created where
    i: "py_get ?vd ''id'' = Inr api_id"
    and th: "thumbnails_of h ?vd = Inr thumbnails"
    and f: "fst (formats_of h ?vd (py_or api_id (PStr url_id)) headers language) = Inr formats"
    and n: "py_getitem ?vd ''name'' = Inr title"
    and s: "fst (extract_all_subtitles h api_url (py_or api_id (PStr url_id)) headers) = Inr subs"
    unfolding real_extract_tail_Inr_iff by blast
  from i have api_id: "api_id = track_field ?vd ''id''"
    by (simp add: track_field_def)
  from f obtain playlists collected where
    pl: "ebind (py_getitem ?vd ''playbackUrls'') py_iter = Inr playlists"
    and co: "fst (collect_formats h (py_or api_id (PStr url_id)) headers playlists) = Inr collected"
    unfolding formats_of_Inr_iff by blast
  have M: ?M
  proof -
    from n have "dict_get d (PStr ''name'') \<noteq> None"
      by (auto split: option.splits)
    moreover from pl obtain v where "dict_get d (PStr ''playbackUrls'') = Some v"
      and "py_iter v = Inr playlists"
      by (auto simp: ebind_Inr_iff split: option.splits)
    moreover note collect_formats_entry_ok [OF co]
    ultimately show ?thesis by blast
  qed
  have O1: "?H1 \<longrightarrow> ?C1"
  proof
    assume H: ?H1
    then have p: "p \<noteq> []" and pn: "p \<noteq> [''name'']" and pp: "hd p \<noteq> ''playbackUrls''"
      by simp_all
    define api_id' where "api_id' = track_field ?vd' ''id''"
    define language' where "language' = track_field ?vd' ''language''"
    define description' where "description' = track_field ?vd' ''description''"
    define created' where "created' = track_field ?vd' ''created''"
    have i': "py_get ?vd' ''id'' = Inr api_id'"
      unfolding api_id'_def by (rule py_get_del_total)
    have l': "py_get ?vd' ''language'' = Inr language'"
      unfolding language'_def by (rule py_get_del_total)
    have ds': "py_get ?vd' ''description'' = Inr description'"
      unfolding description'_def by (rule py_get_del_total)
    have c': "py_get ?vd' ''created'' = Inr created'"
      unfolding created'_def by (rule py_get_del_total)
    from th obtain thumbnails' where th': "thumbnails_of h ?vd' = Inr thumbnails'"
      unfolding thumbnails_of_def using thumbnails_loop_del_field by blast
    have pu: "py_getitem ?vd' ''playbackUrls'' = py_getitem ?vd ''playbackUrls''"
      using p pp by (rule py_getitem_del_other)
    from formats_of_ok [OF f pu] obtain formats' where
      f': "fst (formats_of h ?vd' (py_or api_id' (PStr url_id)) headers language') = Inr formats'"
      by blast
    from py_getitem_del_ok [OF n pn] obtain title' where
      n': "py_getitem ?vd' ''name'' = Inr title'"
      by blast
    have keep: "api_id' = api_id" if "hd p \<noteq> ''id''"
      using py_get_del_other [OF p that, of d] i i' by simp
    obtain subs' where
      s': "fst (extract_all_subtitles h api_url (py_or api_id' (PStr url_id)) headers) = Inr subs'"
    proof (cases "hd p = ''id''")
      case True
      with H that show ?thesis
        unfolding api_id'_def by blast
    next
      case False
      with s keep that show ?thesis
        by simp
    qed
    note shape = extract_all_subtitles_shape [OF s']
    define r' where "r' = info_dict h ?vd' (py_or api_id' (PStr url_id)) title' description'
                            thumbnails' subs' created' formats'"
    have ok': "fst (real_extract_tail h url_id api_url headers ?vd') = Inr r'"
      unfolding real_extract_tail_Inr_iff r'_def
      using i' l' th' f' n' ds' s' c' by blast
    have o1: "p = [''id''] \<longrightarrow> dict_get r' (PStr ''id'') = Some (PStr url_id)"
      by (simp add: r'_def info_dict_early api_id'_def track_field_def py_get_del_one py_or_def
          del: del_field.simps py_get.simps)
    have o2: "p = [''description''] \<longrightarrow> dict_get r' (PStr ''description'') = Some PNone"
      by (simp add: r'_def info_dict_early description'_def track_field_def py_get_del_one
          del: del_field.simps py_get.simps)
    have o3: "p = [''creator''] \<or> p = [''creator'', ''name''] \<longrightarrow>
                dict_get r' (PStr ''uploader'') = Some PNone"
      by (simp add: r'_def info_dict_early try_get_absent2 del: del_field.simps try_get.simps)
    have o4: "p = [''creator''] \<longrightarrow> dict_get r' (PStr ''uploader_id'') = Some PNone"
      by (simp add: r'_def info_dict_early try_get_absent_both del: del_field.simps try_get.simps)
    have o5: "p = [''creator'', ''mail''] \<longrightarrow>
                dict_get r' (PStr ''uploader_id'') =
                  Some (try_get (PDict d) [[''creator'', ''id'']] is_str)"
      by (simp add: r'_def info_dict_early try_get_other del: del_field.simps try_get.simps)
    have o6: "p = [''creator'', ''id''] \<longrightarrow>
                dict_get r' (PStr ''uploader_id'') =
                  Some (try_get (PDict d) [[''creator'', ''mail'']] is_str)"
      by (simp add: r'_def info_dict_early try_get_other del: del_field.simps try_get.simps)
    have o7: "p = [''posterImage''] \<longrightarrow> dict_get r' (PStr ''thumbnails'') = Some (PList [])"
      using th'
      by (auto simp: r'_def info_dict_early thumbnails_of_def thumbnails_loop_none
          simp del: del_field.simps)
    have o8: "p = [''posterImage'', l] \<or> p = [''posterImage'', l, ''url''] \<longrightarrow>
                (\<exists>ts. thumbnails_loop h (PDict d) (removeAll l thumbnail_ids) = Inr ts \<and>
                      dict_get r' (PStr ''thumbnails'') = Some (PList ts))"
    proof
      assume "p = [''posterImage'', l] \<or> p = [''posterImage'', l, ''url'']"
      then obtain rest where "p = ''posterImage'' # l # rest" and "rest = [] \<or> rest = [''url'']"
        by auto
      with th' thumbnails_loop_without [of rest h ?vd l thumbnail_ids]
      have "thumbnails_loop h (PDict d) (removeAll l thumbnail_ids) = Inr thumbnails'"
        by (simp add: thumbnails_of_def del: del_field.simps)
      then show "\<exists>ts. thumbnails_loop h (PDict d) (removeAll l thumbnail_ids) = Inr ts \<and>
                      dict_get r' (PStr ''thumbnails'') = Some (PList ts)"
        by (simp add: r'_def info_dict_early)
    qed
    have o9: "p = [''created''] \<longrightarrow>
                dict_get r' (PStr ''timestamp'') = Some (parse_iso8601 h PNone)"
      by (simp add: r'_def info_dict_late [OF shape] created'_def track_field_def py_get_del_one
          del: del_field.simps py_get.simps)
    have o10: "p = [''media''] \<or> p = [''media'', ''duration''] \<longrightarrow>
                 dict_get r' (PStr ''duration'') = Some (parse_duration h PNone)"
      by (simp add: r'_def info_dict_late [OF shape] try_get_absent2
          del: del_field.simps try_get.simps)
    have o11: "p = [''metrics''] \<or> p = [''metrics'', ''views''] \<longrightarrow>
                 dict_get r' (PStr ''view_count'') = Some PNone"
      by (simp add: r'_def info_dict_late [OF shape] try_get_absent2
          del: del_field.simps try_get.simps)
    have o12: "p = [''metrics''] \<or> p = [''metrics'', ''likes''] \<longrightarrow>
                 dict_get r' (PStr ''like_count'') = Some PNone"
      by (simp add: r'_def info_dict_late [OF shape] try_get_absent2
          del: del_field.simps try_get.simps)
    have o13: "p = [''metrics''] \<or> p = [''metrics'', ''comments''] \<longrightarrow>
                 dict_get r' (PStr ''comment_count'') = Some PNone"
      by (simp add: r'_def info_dict_late [OF shape] try_get_absent2
          del: del_field.simps try_get.simps)
    have o14: "p = [''language''] \<longrightarrow>
                 (\<exists>fs. fst (formats_of h (PDict d)
                              (py_or (track_field (PDict d) ''id'') (PStr url_id)) headers PNone)
                          = Inr fs \<and>
                       dict_get r' (PStr ''formats'') = Some (PList (map PDict fs)))"
    proof
      assume pl: "p = [''language'']"
      then have "api_id' = api_id"
        by (intro keep) simp
      moreover from pl have "language' = PNone"
        by (simp add: language'_def track_field_def py_get_del_one
            del: del_field.simps py_get.simps)
      ultimately have "fst (formats_of h (PDict d)
                              (py_or (track_field (PDict d) ''id'') (PStr url_id)) headers PNone)
                         = Inr formats'"
        using f' formats_of_same [OF pu] api_id by simp
      then show "\<exists>fs. fst (formats_of h (PDict d)
                              (py_or (track_field (PDict d) ''id'') (PStr url_id)) headers PNone)
                          = Inr fs \<and>
                       dict_get r' (PStr ''formats'') = Some (PList (map PDict fs))"
        by (simp add: r'_def info_dict_late [OF shape])
    qed
    show ?C1
      by (intro exI [of _ r'] conjI) (fact ok' o1 o2 o3 o4 o5 o6 o7 o8 o9 o10 o11 o12 o13 o14)+
  qed
  have O2: "?H2 \<longrightarrow> ?C2"
  proof
    assume H: ?H2
    let ?new = "PList (pre @ PDict (dict_del e (PStr f)) # post)"
    let ?d' = "dict_set d (PStr ''playbackUrls'') ?new"
    from H have pf: "playlist_formats h v headers (PDict (dict_del e (PStr f))) =
                       playlist_formats h v headers (PDict e)" for v
      by (intro playlist_formats_del) simp_all
    have "dict_get ?d' (PStr k) = dict_get d (PStr k)" if "k \<noteq> ''playbackUrls''" for k
      using that by (auto simp: dict_get_dict_set)
    moreover have "formats_of h (PDict ?d') v headers lg = formats_of h (PDict d) v headers lg"
      for v lg
      using H collect_formats_entry [OF pf, of v pre post]
      by (simp add: formats_of_def dict_get_dict_set ebind_simps bind_lift)
    ultimately show ?C2
      by (rule real_extract_tail_cong)
  qed
  show ?thesis
    by (rule conjI [OF M conjI [OF O1 O2]])
qed

theorem absent_fields_witness:
  "dict_get sample_video_fields (PStr ''name'') \<noteq> None \<and>
   (\<exists>v playlists. dict_get sample_video_fields (PStr ''playbackUrls'') = Some v
       \<and> py_iter v = Inr playlists \<and> list_all entry_ok playlists) \<and>
   (\<exists>r'. fst (real_extract_tail (sample_host [] sample_page sample_video sample_tracks)
                ''6e51d928-4f46-4f1c-b141-369925e37b62'' ''https://api.test/api''
                [(''Authorization'', ''Bearer t0k'')]
                (del_field (PDict sample_video_fields) [''posterImage'', ''small'', ''url'']))
           = Inr r' \<and>
         dict_get r' (PStr ''thumbnails'') = Some (PList [])) \<and>
   real_extract_tail (sample_host [] sample_page sample_video sample_tracks)
     ''6e51d928-4f46-4f1c-b141-369925e37b62'' ''https://api.test/api''
     [(''Authorization'', ''Bearer t0k'')]
     (PDict (dict_set sample_video_fields (PStr ''playbackUrls'')
               (PList ([] @ PDict (dict_del [(PStr ''mimeType'', PStr ''video/x-unknown''),
                                             (PStr ''playbackUrl'', PStr ''https://cdn.test/a'')]
                                      (PStr ''playbackUrl'')) # [dash_playlist])))) =
   real_extract_tail (sample_host [] sample_page sample_video sample_tracks)
     ''6e51d928-4f46-4f1c-b141-369925e37b62'' ''https://api.test/api''
     [(''Authorization'', ''Bearer t0k'')] (PDict sample_video_fields)"
proof -
  let ?h = "sample_host [] sample_page sample_video sample_tracks"
  let ?e = "[(PStr ''mimeType'', PStr ''video/x-unknown''),
             (PStr ''playbackUrl'', PStr ''https://cdn.test/a'')]"
  note a = absent_fields [OF sample_tail, of "[''posterImage'', ''small'', ''url'']" "''small''"
      "[]" ?e "[dash_playlist]" "''playbackUrl''"]
  have h1: "[''posterImage'', ''small'', ''url''] \<noteq> [] \<and>
            [''posterImage'', ''small'', ''url''] \<noteq> [''name''] \<and>
            hd [''posterImage'', ''small'', ''url''] \<noteq> ''playbackUrls'' \<and>
            (hd [''posterImage'', ''small'', ''url''] = ''id'' \<longrightarrow>
               (\<exists>s. fst (extract_all_subtitles ?h ''https://api.test/api''
                           (py_or (track_field (del_field (PDict sample_video_fields)
                                     [''posterImage'', ''small'', ''url'']) ''id'')
                              (PStr ''6e51d928-4f46-4f1c-b141-369925e37b62''))
                           [(''Authorization'', ''Bearer t0k'')]) = Inr s))"
    by simp
  have h2: "dict_get sample_video_fields (PStr ''playbackUrls'') =
              Some (PList ([] @ PDict ?e # [dash_playlist])) \<and>
            ''playbackUrl'' \<noteq> ''mimeType'' \<and>
            (''playbackUrl'' = ''playbackUrl'' \<longrightarrow>
               \<not> supported_mime (track_field (PDict ?e) ''mimeType''))"
    by (simp add: sample_video_fields_def unknown_playlist_def supported_mime_def track_field_def)
  have t: "thumbnails_loop ?h (PDict sample_video_fields) (removeAll ''small'' thumbnail_ids)
             = Inr []"
    by code_simp
  note m = a [THEN conjunct1]
  note c1 = a [THEN conjunct2, THEN conjunct1, THEN mp, OF h1]
  note c2 = a [THEN conjunct2, THEN conjunct2, THEN mp, OF h2]
  from c1 t have o: "\<exists>r'. fst (real_extract_tail ?h ''6e51d928-4f46-4f1c-b141-369925e37b62''
                              ''https://api.test/api'' [(''Authorization'', ''Bearer t0k'')]
                              (del_field (PDict sample_video_fields)
                                 [''posterImage'', ''small'', ''url''])) = Inr r' \<and>
                       dict_get r' (PStr ''thumbnails'') = Some (PList [])"
    by (simp del: del_field.simps)
  show ?thesis
    by (rule conjI [OF m [THEN conjunct1] conjI [OF m [THEN conjunct2] conjI [OF o c2]]])
qed

text \<open>
  The claim as stated fails for the two fields it names, and for the two of a playlist
  entry: a record without \<^verbatim>\<open>name\<close>, one without \<^verbatim>\<open>playbackUrls\<close>, one with a
  playlist entry without \<^verbatim>\<open>mimeType\<close> and one with a DASH entry without
  \<^verbatim>\<open>playbackUrl\<close> abort the extraction with a KeyError.
\<close>

theorem missing_field_counterexample:
  "real_extract (sample_host [] sample_page nameless_video sample_tracks) sample_url =
     (Inl (KeyError ''name''),
      [FetchWebpage sample_url,
       FetchJson ''https://api.test/api/videos/6e51d928-4f46-4f1c-b141-369925e37b62'' True
         [(''Authorization'', ''Bearer t0k'')] video_query])
   \<and> real_extract (sample_host [] sample_page playlistless_video sample_tracks) sample_url =
     (Inl (KeyError ''playbackUrls''),
      [FetchWebpage sample_url,
       FetchJson ''https://api.test/api/videos/6e51d928-4f46-4f1c-b141-369925e37b62'' True
         [(''Authorization'', ''Bearer t0k'')] video_query])
   \<and> real_extract (sample_host [] sample_page typeless_entry_video sample_tracks) sample_url =
     (Inl (KeyError ''mimeType''),
      [FetchWebpage sample_url,
       FetchJson ''https://api.test/api/videos/6e51d928-4f46-4f1c-b141-369925e37b62'' True
         [(''Authorization'', ''Bearer t0k'')] video_query])
   \<and> real_extract (sample_host [] sample_page urlless_entry_video sample_tracks) sample_url =
     (Inl (KeyError ''playbackUrl''),
      [FetchWebpage sample_url,
       FetchJson ''https://api.test/api/videos/6e51d928-4f46-4f1c-b141-369925e37b62'' True
         [(''Authorization'', ''Bearer t0k'')] video_query])"
  by code_simp

end
